theory Spec2Isabelle
  imports Complex_Main
begin

section \<open>JavaScript values\<close>

text \<open>
  The values that flow through \<^verbatim>\<open>lib/request_overrider.js\<close> and
  \<^verbatim>\<open>lib/intercept.js\<close>. A string is the list of its UTF-8 bytes, a Buffer the list
  of its bytes. \<open>JStream\<close> stands for a readable stream object and \<open>JDelayedBody\<close>
  for \<^verbatim>\<open>new DelayedBody(ms, body)\<close>, which is a stream as well; \<open>JFun\<close> is a
  user function, known by its identity only.
\<close>

type_synonym bytes = "char list"

datatype jsval =
    JUndefined
  | JNull
  | JBool bool
  | JNum rat
  | JNaN
  | JInfinity bool
  | JStr string
  | JBuffer bytes
  | JStream nat
  | JDelayedBody nat jsval
  | JArr "jsval list"
  | JObj "(string \<times> jsval) list"
  | JFun nat

text \<open>An \<^verbatim>\<open>Error\<close> object: its message, with the \<^verbatim>\<open>code\<close> or
  \<^verbatim>\<open>statusCode\<close> the source attaches (\<open>ErrorOf v\<close> is \<^verbatim>\<open>new Error(v)\<close> for a
  message that is not a string); \<open>Thrown\<close> is any other value that is raised,
  rejected or handed over as an error object by the user.\<close>

datatype js_error =
    Error string
  | ErrorOf jsval
  | CodedError string string
  | StatusError string nat
  | Thrown jsval

fun js_typeof :: "jsval \<Rightarrow> string" where
  "js_typeof JUndefined = ''undefined''"
| "js_typeof (JBool b) = ''boolean''"
| "js_typeof (JNum q) = ''number''"
| "js_typeof JNaN = ''number''"
| "js_typeof (JInfinity s) = ''number''"
| "js_typeof (JStr s) = ''string''"
| "js_typeof (JFun f) = ''function''"
| "js_typeof v = ''object''"

text \<open>Truthiness, as \<^verbatim>\<open>if (x)\<close>, \<^verbatim>\<open>!x\<close> and \<^verbatim>\<open>x || y\<close> test it.\<close>

fun truthy :: "jsval \<Rightarrow> bool" where
  "truthy JUndefined = False"
| "truthy JNull = False"
| "truthy (JBool b) = b"
| "truthy (JNum q) = (q \<noteq> 0)"
| "truthy JNaN = False"
| "truthy (JStr s) = (s \<noteq> [])"
| "truthy v = True"

fun Array_isArray :: "jsval \<Rightarrow> bool" where
  "Array_isArray (JArr xs) = True"
| "Array_isArray v = False"

fun Buffer_isBuffer :: "jsval \<Rightarrow> bool" where
  "Buffer_isBuffer (JBuffer b) = True"
| "Buffer_isBuffer v = False"

fun Number_isInteger :: "jsval \<Rightarrow> bool" where
  "Number_isInteger (JNum q) = (q = of_int \<lfloor>q\<rfloor>)"
| "Number_isInteger v = False"

text \<open>\<^verbatim>\<open>common.isStream\<close>: the stream objects are the values built by \<open>JStream\<close>
  and \<open>JDelayedBody\<close>.\<close>

fun isStream :: "jsval \<Rightarrow> bool" where
  "isStream (JStream s) = True"
| "isStream (JDelayedBody ms b) = True"
| "isStream v = False"

text \<open>\<^verbatim>\<open>_.isObject\<close> of lodash: objects, arrays and functions, not \<^verbatim>\<open>null\<close>.\<close>

definition isObject :: "jsval \<Rightarrow> bool" where
  "isObject v = (v \<noteq> JNull \<and> (js_typeof v = ''object'' \<or> js_typeof v = ''function''))"

text \<open>\<^verbatim>\<open>Array.prototype.find\<close>: the first element, in index order, that the
  predicate accepts; the elements after it are not visited.\<close>

fun array_find :: "('a \<Rightarrow> bool) \<Rightarrow> 'a list \<Rightarrow> 'a option" where
  "array_find p [] = None"
| "array_find p (x # xs) = (if p x then Some x else array_find p xs)"

section \<open>Raw headers\<close>

text \<open>
  \<^verbatim>\<open>response.rawHeaders\<close> is the flat array
  \<^verbatim>\<open>[name1, value1, name2, value2, ...]\<close>. The model keeps it as the list of its
  (name, value) pairs, in the array's order, so that \<^verbatim>\<open>rawHeaders.push(n, v)\<close>
  appends the pair \<open>(n, v)\<close>. A value is a string or a function of the request, the
  response and the body.
\<close>

type_synonym raw_headers = "(string \<times> jsval) list"

text \<open>Modelled from the spec: \<^verbatim>\<open>common.forEachHeader\<close> is not part of the sources at
  hand. The response holds "ordered raw header pairs", and the callers in
  \<^verbatim>\<open>request_overrider.js\<close> receive \<^verbatim>\<open>(value, fieldName, i)\<close> for each pair, in
  order, \<^verbatim>\<open>i\<close> being the index of the name in the flat array.\<close>

fun forEachHeader :: "raw_headers \<Rightarrow> (jsval \<Rightarrow> string \<Rightarrow> 'a \<Rightarrow> 'a) \<Rightarrow> 'a \<Rightarrow> 'a" where
  "forEachHeader [] callback acc = acc"
| "forEachHeader ((fieldName, value) # rest) callback acc =
     forEachHeader rest callback (callback value fieldName acc)"

section \<open>Collaborators that are taken as parameters\<close>

text \<open>
  The helpers of \<^verbatim>\<open>lib/common.js\<close> and the Node built-ins that the two files call
  are not part of the sources at hand. Each is a field of the record below and every
  function of the model takes the record as its first argument, so that a theorem holds
  for whatever these helpers compute. A built-in that can raise returns a sum, \<open>Inl\<close>
  being the exception. \<^verbatim>\<open>callHeader f rid body\<close> is the call
  \<^verbatim>\<open>value(req, response, responseBody)\<close> of a header value that is the function \<open>f\<close>,
  and \<^verbatim>\<open>callCallback f\<close> the call \<^verbatim>\<open>callback()\<close> of the user function \<open>f\<close>:
  \<open>None\<close> when it returns, the exception that leaves it otherwise. \<open>toLowerCase\<close> is
  \<^verbatim>\<open>String.prototype.toLowerCase\<close>.
\<close>

record options =
  host :: "string option"
  port :: "nat option"
  proto :: string
  protocol :: "string option"
  path :: string
  http_method :: string
  headers :: "string \<rightharpoonup> string"

record helpers =
  isUtf8Representable :: "bytes \<Rightarrow> bool"
  isContentEncoded :: "jsval \<Rightarrow> bool"
  isJSONContent :: "(string \<rightharpoonup> string) \<Rightarrow> bool"
  contentEncoding :: "(string \<rightharpoonup> string) \<Rightarrow> string \<Rightarrow> bool"
  headersArrayToObject :: "raw_headers \<Rightarrow> jsval"
  headersInputToRawArray :: "jsval \<Rightarrow> js_error + raw_headers"
  stringifyRequest :: "options \<Rightarrow> string \<Rightarrow> string"
  Buffer_from :: "jsval \<Rightarrow> jsval \<Rightarrow> js_error + bytes"
  Buffer_toString :: "bytes \<Rightarrow> string \<Rightarrow> string"
  gunzipSync :: "bytes \<Rightarrow> js_error + string"
  inflateSync :: "bytes \<Rightarrow> js_error + string"
  JSON_parse :: "string \<Rightarrow> js_error + jsval"
  JSON_stringify :: "jsval \<Rightarrow> jsval"
  callHeader :: "nat \<Rightarrow> nat \<Rightarrow> jsval \<Rightarrow> jsval"
  callCallback :: "nat \<Rightarrow> js_error option"
  toLowerCase :: "string \<Rightarrow> string"

text \<open>\<^verbatim>\<open>selectDefaultHeaders\<close>: the accumulator of the first loop is the set
  \<^verbatim>\<open>definedHeaders\<close>, that of the second the array \<^verbatim>\<open>result\<close>.\<close>

definition selectDefaultHeaders :: "helpers \<Rightarrow> raw_headers \<Rightarrow> raw_headers \<Rightarrow> raw_headers" where
  "selectDefaultHeaders h existingHeaders defaultHeaders =
     (if length defaultHeaders = 0 then []
      else
        let definedHeaders =
              forEachHeader existingHeaders
                (\<lambda>_ fieldName defined. insert (toLowerCase h fieldName) defined) {}
        in forEachHeader defaultHeaders
             (\<lambda>value fieldName result.
                if toLowerCase h fieldName \<notin> definedHeaders then result @ [(fieldName, value)]
                else result) [])"

section \<open>Expectation records and the registry\<close>

text \<open>
  A reply function is user code. \<^verbatim>\<open>fn.length\<close> decides whether it is wrapped by
  \<^verbatim>\<open>util.promisify\<close>; \<open>fn_call\<close> is what the call with (path, parsed body) comes
  to: a value (returned, passed to the completion callback, or the fulfilment of a
  returned promise), a rejection, or an exception raised during the call.
\<close>

datatype fn_outcome = Returns jsval | Rejects jsval | Throws jsval

record reply_fn =
  fn_length :: nat
  fn_call :: "string \<Rightarrow> jsval \<Rightarrow> fn_outcome"

text \<open>The owning scope, as far as the two files read it:
  \<^verbatim>\<open>scope.shouldPersist()\<close> and \<^verbatim>\<open>scope._defaultReplyHeaders\<close>.\<close>

record scope =
  shouldPersist :: bool
  defaultReplyHeaders :: raw_headers

text \<open>
  An interceptor object. \<open>match\<close> and \<open>matchHostName\<close> are its methods
  \<^verbatim>\<open>match(options, requestBody)\<close> and \<^verbatim>\<open>matchHostName(options)\<close>; \<open>match\<close>
  also receives the header map of the live request, which it reads through
  \<^verbatim>\<open>options.getHeader\<close>. \<open>allowUnmocked\<close> is \<^verbatim>\<open>interceptor.options.allowUnmocked\<close>,
  \<open>i_headers\<close> is \<^verbatim>\<open>interceptor.headers\<close>. The fields named \<open>nock_...\<close> are the
  properties \<^verbatim>\<open>__nock_...\<close>.
\<close>

record interceptor =
  basePath :: string
  counter :: int
  interceptionCounter :: int
  match :: "options \<Rightarrow> (string \<rightharpoonup> string) \<Rightarrow> string \<Rightarrow> bool"
  matchHostName :: "options \<Rightarrow> bool"
  allowUnmocked :: bool
  i_scope :: scope
  nock_scope :: scope
  nock_scopeKey :: string
  nock_scopeAllowUnmocked :: bool
  nock_scopeHost :: "string option"
  nock_filteredScope :: "string option"
  errorMessage :: jsval
  statusCode :: jsval
  rawHeaders :: raw_headers
  i_headers :: jsval
  replyFunction :: "reply_fn option"
  fullReplyFunction :: "reply_fn option"
  body :: jsval
  delayInMs :: nat
  delayConnectionInMs :: nat
  socketDelayInMs :: nat
  i_req :: "nat option"

text \<open>Modelled from the spec: \<^verbatim>\<open>Interceptor.getTotalDelay\<close> is not part of the sources
  at hand. "Total delay: sum of configured connection delay and body delay".\<close>

definition getTotalDelay :: "interceptor \<Rightarrow> nat" where
  "getTotalDelay i = delayConnectionInMs i + delayInMs i"

text \<open>One slot of \<^verbatim>\<open>allInterceptors\<close>: \<^verbatim>\<open>{ key, scopes: [], allowUnmocked }\<close>.
  \<open>scopes\<close> is the address of the array.\<close>

record entry =
  key :: string
  scopes :: nat
  e_allowUnmocked :: bool

section \<open>Requests, scheduled continuations and the world\<close>

text \<open>
  The state of one \<^verbatim>\<open>RequestOverrider\<close> call: the variables its closures share
  (\<^verbatim>\<open>options\<close>, \<^verbatim>\<open>interceptors\<close>, \<^verbatim>\<open>requestBodyBuffers\<close>, \<^verbatim>\<open>ended\<close>, and the
  \<^verbatim>\<open>responseBody\<close> and \<^verbatim>\<open>responseBuffers\<close> of \<^verbatim>\<open>end\<close>), what the code reads of
  \<^verbatim>\<open>req\<close> (\<open>reqHeaders\<close> is \<^verbatim>\<open>req.getHeaders()\<close>, \<open>r_headers\<close> is
  \<^verbatim>\<open>req.headers\<close>) and the fields of \<^verbatim>\<open>response\<close>. \<open>interceptors\<close> is the address
  of the array that was passed in: it is the registry's own array, not a copy.
  \<open>bodyListeners\<close> says that the listeners on a body stream are attached.
\<close>

record request =
  opts :: options
  interceptors :: nat
  isClientRequest :: bool
  socketAuthorized :: bool
  reqHeaders :: "string \<rightharpoonup> string"
  reqPath :: string
  r_headers :: "string \<rightharpoonup> string"
  requestBodyBuffers :: "bytes list"
  ended :: bool
  aborted :: bool
  res_statusCode :: jsval
  res_rawHeaders :: raw_headers
  res_headers :: jsval
  complete :: bool
  responseBody :: jsval
  responseBuffers :: "jsval list option"
  bodyListeners :: bool

datatype settled = Fulfilled jsval | Rejected js_error

text \<open>
  A scheduled continuation, with the request and the interceptor its closure holds:
  \<^item> \<open>TSocket\<close>, \<open>TError\<close>, \<open>TRespond\<close>: \<^verbatim>\<open>process.nextTick\<close>;
  \<^item> \<open>TContinue\<close>, \<open>TDrain\<close>, \<open>TEmitChunk\<close>: \<^verbatim>\<open>timers.setImmediate\<close>;
  \<^item> \<open>TErrorLater\<close>, \<open>TRespondLater\<close>: \<^verbatim>\<open>setTimeout\<close>, with the delay;
  \<^item> \<open>TReply\<close>, \<open>TFullReply\<close>: the reaction
    \<^verbatim>\<open>.then(continueWith...).catch(emitError)\<close> to the promise of a reply function.
\<close>

datatype task =
    TSocket nat
  | TContinue nat
  | TDrain nat
  | TError nat js_error
  | TErrorLater nat nat js_error
  | TReply nat nat settled
  | TFullReply nat nat settled
  | TRespond nat nat
  | TRespondLater nat nat nat
  | TEmitChunk nat nat

text \<open>
  What the outside observes, in order: \<open>Emit rid name\<close> is \<^verbatim>\<open>req.emit(name)\<close>,
  \<open>EmitError\<close> is \<^verbatim>\<open>req.emit('error', e)\<close>, \<open>Push rid chunk\<close> is
  \<^verbatim>\<open>response.push(chunk)\<close> (\<open>JNull\<close> for \<^verbatim>\<open>push(null)\<close>), \<open>ScopeRequest\<close> and
  \<open>ScopeReplied\<close> are the scope's \<^verbatim>\<open>'request'\<close> and \<^verbatim>\<open>'replied'\<close> events of an
  interceptor and a request, \<open>NoMatch\<close> is the global \<^verbatim>\<open>'no match'\<close> event,
  \<open>RealRequest\<close> the hand-over of the raw body to a real \<^verbatim>\<open>ClientRequest\<close>,
  \<open>Callback f\<close> a call of the user function \<open>f\<close>.
\<close>

datatype event =
    Emit nat string
  | EmitError nat js_error
  | SocketEmit nat string
  | SocketDestroy nat
  | SocketDelay nat nat
  | ResponseClose nat
  | ResponseError nat jsval
  | Push nat jsval
  | ScopeRequest nat nat string
  | ScopeReplied nat nat
  | NoMatch nat
  | RealRequest nat bytes
  | StreamPause jsval
  | StreamResume jsval
  | Callback nat

text \<open>
  The world: the interceptor objects and the \<^verbatim>\<open>scopes\<close> arrays by address (objects
  and arrays are shared by reference and mutated in place), the table
  \<^verbatim>\<open>allInterceptors\<close>, the requests, the continuations that are scheduled and not
  yet run, and the events so far.
\<close>

record world =
  interceptorObjs :: "nat \<Rightarrow> interceptor"
  arrays :: "nat \<Rightarrow> nat list"
  allInterceptors :: "string \<rightharpoonup> entry"
  nextArray :: nat
  requests :: "nat \<Rightarrow> request"
  pending :: "task list"
  trace :: "event list"

definition emit :: "event \<Rightarrow> world \<Rightarrow> world" where
  "emit e w = w\<lparr>trace := trace w @ [e]\<rparr>"

definition schedule :: "task \<Rightarrow> world \<Rightarrow> world" where
  "schedule t w = w\<lparr>pending := pending w @ [t]\<rparr>"

definition updRequest :: "nat \<Rightarrow> (request \<Rightarrow> request) \<Rightarrow> world \<Rightarrow> world" where
  "updRequest rid f w = w\<lparr>requests := (requests w)(rid := f (requests w rid))\<rparr>"

definition updInterceptor :: "nat \<Rightarrow> (interceptor \<Rightarrow> interceptor) \<Rightarrow> world \<Rightarrow> world" where
  "updInterceptor iref f w =
     w\<lparr>interceptorObjs := (interceptorObjs w)(iref := f (interceptorObjs w iref))\<rparr>"

subsection \<open>\<^verbatim>\<open>lib/intercept.js\<close>: add and remove\<close>

definition add :: "string \<Rightarrow> nat \<Rightarrow> scope \<Rightarrow> bool \<Rightarrow> string option \<Rightarrow> world \<Rightarrow> world" where
  "add k iref sc scopeAllowUnmocked hst w =
     (let w1 = (if allInterceptors w k = None
                then w\<lparr>allInterceptors :=
                         (allInterceptors w)
                           (k \<mapsto> \<lparr>key = k, scopes = nextArray w, e_allowUnmocked = False\<rparr>),
                       arrays := (arrays w)(nextArray w := []),
                       nextArray := Suc (nextArray w)\<rparr>
                else w);
          w2 = updInterceptor iref
                 (\<lambda>i. i\<lparr>nock_scope := sc, nock_scopeKey := k,
                         nock_scopeAllowUnmocked := scopeAllowUnmocked,
                         nock_scopeHost := hst, interceptionCounter := 0\<rparr>) w1
      in case allInterceptors w2 k of
           None \<Rightarrow> w2
         | Some e \<Rightarrow>
             w2\<lparr>allInterceptors :=
                  (allInterceptors w2)
                    (k \<mapsto> (if scopeAllowUnmocked then e\<lparr>e_allowUnmocked := True\<rparr> else e)),
                arrays := (arrays w2)(scopes e := arrays w2 (scopes e) @ [iref])\<rparr>)"

text \<open>\<^verbatim>\<open>remove\<close>: a persistent scope returns before the counter is touched;
  otherwise \<^verbatim>\<open>--interceptor.counter\<close> is stored in the object, and at zero or below
  the first occurrence of the object is spliced out of the array of its base path.\<close>

definition remove :: "nat \<Rightarrow> world \<Rightarrow> world" where
  "remove iref w =
     (if shouldPersist (nock_scope (interceptorObjs w iref)) then w
      else
        let w1 = updInterceptor iref (\<lambda>i. i\<lparr>counter := counter i - 1\<rparr>) w;
            i = interceptorObjs w1 iref
        in if counter i > 0 then w1
           else (case allInterceptors w1 (basePath i) of
                   None \<Rightarrow> w1
                 | Some e \<Rightarrow> w1\<lparr>arrays := (arrays w1)(scopes e := remove1 iref (arrays w1 (scopes e)))\<rparr>))"

text \<open>The statements \<^verbatim>\<open>interceptor.interceptionCounter++; remove(interceptor);
  interceptor.discard()\<close>, which the source has twice. \<^verbatim>\<open>Interceptor.discard\<close> is not
  part of the sources at hand and touches nothing that is modelled here.\<close>

definition consume :: "nat \<Rightarrow> world \<Rightarrow> world" where
  "consume iref w =
     remove iref
       (updInterceptor iref (\<lambda>i. i\<lparr>interceptionCounter := interceptionCounter i + 1\<rparr>) w)"

subsection \<open>\<^verbatim>\<open>lib/request_overrider.js\<close>: headers of the request\<close>

definition truthyString :: "string option \<Rightarrow> bool" where
  "truthyString v = (case v of None \<Rightarrow> False | Some s \<Rightarrow> s \<noteq> [])"

definition getHeader :: "helpers \<Rightarrow> request \<Rightarrow> string \<Rightarrow> string option" where
  "getHeader h r name = reqHeaders r (toLowerCase h name)"

definition setHeader :: "helpers \<Rightarrow> nat \<Rightarrow> string \<Rightarrow> string \<Rightarrow> world \<Rightarrow> world" where
  "setHeader h rid name val w =
     (let w1 = updRequest rid (\<lambda>r. r\<lparr>reqHeaders := (reqHeaders r)(toLowerCase h name \<mapsto> val)\<rparr>) w
      in if name = ''expect'' \<and> val = ''100-continue'' then schedule (TContinue rid) w1 else w1)"

definition setRequestHeaders :: "helpers \<Rightarrow> nat \<Rightarrow> interceptor \<Rightarrow> world \<Rightarrow> world" where
  "setRequestHeaders h rid i w =
     (let r = requests w rid in
      if truthyString (nock_filteredScope i) \<and> truthyString (nock_scopeHost i) then
        (case nock_scopeHost i of
           None \<Rightarrow> w
         | Some scopeHost \<Rightarrow>
             setHeader h rid ''host'' scopeHost
               (updRequest rid
                  (\<lambda>r. r\<lparr>opts := (opts r)\<lparr>headers := (headers (opts r))(''host'' \<mapsto> scopeHost)\<rparr>\<rparr>) w))
      else if truthyString (host (opts r)) \<and> \<not> truthyString (getHeader h r ''host'') then
        (case host (opts r) of
           None \<Rightarrow> w
         | Some hostHeader \<Rightarrow>
             setHeader h rid ''host''
               (if port (opts r) = Some 80 \<or> port (opts r) = Some 443
                then takeWhile (\<lambda>c. c \<noteq> CHR '':'') hostHeader else hostHeader) w)
      else w)"

subsection \<open>Parsing what the callbacks receive and return\<close>

definition parseJSONRequestBody ::
  "helpers \<Rightarrow> (string \<rightharpoonup> string) \<Rightarrow> string \<Rightarrow> js_error + jsval" where
  "parseJSONRequestBody h hdrs requestBody =
     (if requestBody = [] \<or> \<not> isJSONContent h hdrs then Inr (JStr requestBody)
      else if contentEncoding h hdrs ''gzip'' then
        (case Buffer_from h (JStr requestBody) (JStr ''hex'') of
           Inl e \<Rightarrow> Inl e
         | Inr b \<Rightarrow> (case gunzipSync h b of Inl e \<Rightarrow> Inl e | Inr s \<Rightarrow> JSON_parse h s))
      else if contentEncoding h hdrs ''deflate'' then
        (case Buffer_from h (JStr requestBody) (JStr ''hex'') of
           Inl e \<Rightarrow> Inl e
         | Inr b \<Rightarrow> (case inflateSync h b of Inl e \<Rightarrow> Inl e | Inr s \<Rightarrow> JSON_parse h s))
      else JSON_parse h requestBody)"

text \<open>An array read \<^verbatim>\<open>xs[n]\<close>: \<^verbatim>\<open>undefined\<close> beyond the end.\<close>

definition element :: "jsval list \<Rightarrow> nat \<Rightarrow> jsval" where
  "element xs n = (if n < length xs then xs ! n else JUndefined)"

text \<open>\<^verbatim>\<open>parseFullReplyResult\<close> returns the body or raises, and writes the status and
  the headers into the response on its way: the second component is the response after
  the call, also when the call raises.\<close>

definition parseFullReplyResult ::
  "helpers \<Rightarrow> request \<Rightarrow> jsval \<Rightarrow> (js_error + jsval) \<times> request" where
  "parseFullReplyResult h response fullReplyResult =
     (case fullReplyResult of
        JArr xs \<Rightarrow>
          if length xs > 3 then
            (Inl (Error ''The array returned from the .reply callback contains too many values''),
             response)
          else
            let status = element xs 0;
                bdy = (if element xs 1 = JUndefined then JStr [] else element xs 1);
                hdrs = element xs 2
            in if \<not> Number_isInteger status then
                 (Inl (Error (''Invalid '' @ js_typeof status @ '' value for status code'')),
                  response)
               else
                 let response1 = response\<lparr>res_statusCode := status\<rparr>
                 in (case headersInputToRawArray h hdrs of
                       Inl e \<Rightarrow> (Inl e, response1)
                     | Inr raw \<Rightarrow>
                         (Inr bdy, response1\<lparr>res_rawHeaders := res_rawHeaders response1 @ raw\<rparr>))
      | _ \<Rightarrow>
          (Inl (Error ''A single function provided to .reply MUST return an array''), response))"

subsection \<open>The continuations of \<^verbatim>\<open>end\<close>\<close>

definition emitError :: "nat \<Rightarrow> js_error \<Rightarrow> world \<Rightarrow> world" where
  "emitError rid e w = schedule (TError rid e) w"

text \<open>\<^verbatim>\<open>emitChunk\<close>: \<^verbatim>\<open>shift()\<close> takes the first buffer, or \<^verbatim>\<open>undefined\<close> from
  an empty array.\<close>

definition emitChunk :: "nat \<Rightarrow> nat \<Rightarrow> world \<Rightarrow> world" where
  "emitChunk rid iref w =
     (let buffers = (case responseBuffers (requests w rid) of None \<Rightarrow> [] | Some bs \<Rightarrow> bs);
          chunk = (case buffers of [] \<Rightarrow> JUndefined | c # _ \<Rightarrow> c);
          w1 = updRequest rid (\<lambda>r. r\<lparr>responseBuffers := Some (tl buffers)\<rparr>) w
      in if truthy chunk then schedule (TEmitChunk rid iref) (emit (Push rid chunk) w1)
         else emit (ScopeReplied iref rid)
                (updRequest rid (\<lambda>r. r\<lparr>complete := True\<rparr>) (emit (Push rid JNull) w1)))"

definition respond' :: "nat \<Rightarrow> nat \<Rightarrow> world \<Rightarrow> world" where
  "respond' rid iref w =
     (if aborted (requests w rid) then w
      else
        let w1 = emit (Emit rid ''response'') w;
            r = requests w1 rid
        in if isStream (responseBody r) then emit (StreamResume (responseBody r)) w1
           else
             let buffers0 = (case responseBuffers r of None \<Rightarrow> [] | Some bs \<Rightarrow> bs);
                 buffers = (if responseBody r \<noteq> JUndefined then buffers0 @ [responseBody r]
                            else buffers0)
             in schedule (TEmitChunk rid iref)
                  (updRequest rid (\<lambda>r. r\<lparr>responseBuffers := Some buffers\<rparr>) w1))"

definition respond :: "nat \<Rightarrow> nat \<Rightarrow> world \<Rightarrow> world" where
  "respond rid iref w =
     (if aborted (requests w rid) then w
      else
        let i = interceptorObjs w iref;
            w1 = (if socketDelayInMs i > 0 then emit (SocketDelay rid (socketDelayInMs i)) w
                  else w)
        in if delayConnectionInMs i > 0 then
             schedule (TRespondLater rid iref (delayConnectionInMs i))
               (emit (SocketDelay rid (delayConnectionInMs i)) w1)
           else respond' rid iref w1)"

text \<open>The first part of \<^verbatim>\<open>continueWithResponseBody\<close>, up to the comment that asks
  why JSON data is left as a string: the body after the transformation and the world,
  or the exception of \<^verbatim>\<open>Buffer.from\<close>.\<close>

definition transformBody ::
  "helpers \<Rightarrow> nat \<Rightarrow> interceptor \<Rightarrow> jsval \<Rightarrow> world \<Rightarrow> js_error + jsval \<times> world" where
  "transformBody h rid i responseBody0 w =
     (if responseBody0 = JUndefined then Inr (responseBody0, w)
      else
        let rb = (if delayInMs i \<noteq> 0 then JDelayedBody (getTotalDelay i) responseBody0
                  else responseBody0)
        in if isStream rb then
             Inr (rb, updRequest rid (\<lambda>r. r\<lparr>bodyListeners := True\<rparr>) (emit (StreamPause rb) w))
           else if \<not> Buffer_isBuffer rb then
             (if js_typeof rb = ''string'' then
                (case Buffer_from h rb JUndefined of
                   Inl e \<Rightarrow> Inl e
                 | Inr b \<Rightarrow> Inr (JBuffer b, w))
              else
                Inr (JSON_stringify h rb,
                     updRequest rid
                       (\<lambda>r. r\<lparr>res_rawHeaders :=
                                 res_rawHeaders r @ [(''Content-Type'', JStr ''application/json'')]\<rparr>)
                       w))
           else Inr (rb, w))"

text \<open>The evaluation of the functional headers replaces a value that is a function
  by the result of its call, in its place.\<close>

definition headerValue :: "helpers \<Rightarrow> nat \<Rightarrow> jsval \<Rightarrow> jsval \<Rightarrow> jsval" where
  "headerValue h rid responseBody0 val =
     (case val of JFun f \<Rightarrow> callHeader h f rid responseBody0 | _ \<Rightarrow> val)"

definition evaluateHeaders :: "helpers \<Rightarrow> nat \<Rightarrow> jsval \<Rightarrow> raw_headers \<Rightarrow> raw_headers" where
  "evaluateHeaders h rid responseBody0 hs =
     forEachHeader hs
       (\<lambda>val fieldName acc. acc @ [(fieldName, headerValue h rid responseBody0 val)]) []"

definition continueWithResponseBody ::
  "helpers \<Rightarrow> nat \<Rightarrow> nat \<Rightarrow> jsval \<Rightarrow> world \<Rightarrow> js_error option \<times> world" where
  "continueWithResponseBody h rid iref responseBody0 w =
     (case transformBody h rid (interceptorObjs w iref) responseBody0 w of
        Inl e \<Rightarrow> (Some e, w)
      | Inr (rb, w1) \<Rightarrow>
          let w2 = consume iref (updRequest rid (\<lambda>r. r\<lparr>responseBody := rb\<rparr>) w1)
          in if aborted (requests w2 rid) then (None, w2)
             else
               let existing = res_rawHeaders (requests w2 rid);
                   defaults = defaultReplyHeaders (i_scope (interceptorObjs w2 iref));
                   finalHeaders =
                     evaluateHeaders h rid rb (existing @ selectDefaultHeaders h existing defaults)
               in (None,
                   schedule (TRespond rid iref)
                     (updRequest rid
                        (\<lambda>r. r\<lparr>res_rawHeaders := finalHeaders,
                                res_headers := headersArrayToObject h finalHeaders\<rparr>) w2)))"

definition continueWithFullResponse ::
  "helpers \<Rightarrow> nat \<Rightarrow> nat \<Rightarrow> jsval \<Rightarrow> world \<Rightarrow> js_error option \<times> world" where
  "continueWithFullResponse h rid iref fullReplyResult w =
     (case parseFullReplyResult h (requests w rid) fullReplyResult of
        (Inl innerErr, response1) \<Rightarrow>
          (None, emitError rid innerErr (updRequest rid (\<lambda>_. response1) w))
      | (Inr bdy, response1) \<Rightarrow>
          continueWithResponseBody h rid iref bdy (updRequest rid (\<lambda>_. response1) w))"

subsection \<open>The closure \<^verbatim>\<open>end\<close>\<close>

text \<open>\<^verbatim>\<open>new Error(message)\<close> for a message that need not be a string.\<close>

definition newError :: "jsval \<Rightarrow> js_error" where
  "newError message = (case message of JStr s \<Rightarrow> Error s | v \<Rightarrow> ErrorOf v)"

text \<open>The call of a reply function and the reaction that is registered on its
  promise. A function of three parameters is promisified, so its exception is a
  rejection; the exception of any other function leaves \<^verbatim>\<open>end\<close>.\<close>

definition callReplyFunction ::
  "helpers \<Rightarrow> nat \<Rightarrow> reply_fn \<Rightarrow> (settled \<Rightarrow> task) \<Rightarrow> string \<Rightarrow> world \<Rightarrow> js_error option \<times> world"
  where
  "callReplyFunction h rid fn reaction requestBody w =
     (let r = requests w rid in
      case parseJSONRequestBody h (r_headers r) requestBody of
        Inl e \<Rightarrow> (Some e, w)
      | Inr parsedRequestBody \<Rightarrow>
          (case fn_call fn (path (opts r)) parsedRequestBody of
             Returns v \<Rightarrow> (None, schedule (reaction (Fulfilled v)) w)
           | Rejects e \<Rightarrow> (None, schedule (reaction (Rejected (Thrown e))) w)
           | Throws e \<Rightarrow>
               if fn_length fn = 3 then (None, schedule (reaction (Rejected (Thrown e))) w)
               else (Some (Thrown e), w)))"

text \<open>\<^verbatim>\<open>bufferData.map(data => Buffer.from(data, 'hex'))\<close>: the first exception
  ends the loop.\<close>

fun hexBuffers :: "helpers \<Rightarrow> jsval list \<Rightarrow> js_error + jsval list" where
  "hexBuffers h [] = Inr []"
| "hexBuffers h (d # ds) =
     (case Buffer_from h d (JStr ''hex'') of
        Inl e \<Rightarrow> Inl e
      | Inr b \<Rightarrow> (case hexBuffers h ds of Inl e \<Rightarrow> Inl e | Inr bs \<Rightarrow> Inr (JBuffer b # bs)))"

text \<open>\<^verbatim>\<open>end\<close> when no interceptor matches.\<close>

definition end_noMatch :: "helpers \<Rightarrow> nat \<Rightarrow> string \<Rightarrow> bytes \<Rightarrow> nat list \<Rightarrow> world \<Rightarrow> world" where
  "end_noMatch h rid requestBody requestBodyBuffer candidates w =
     (let w1 = emit (NoMatch rid) w;
          r = requests w1 rid;
          allowUnmocked1 =
            list_ex (\<lambda>iref. matchHostName (interceptorObjs w1 iref) (opts r)
                            \<and> allowUnmocked (interceptorObjs w1 iref)) candidates
      in if allowUnmocked1 \<and> isClientRequest r then emit (RealRequest rid requestBodyBuffer) w1
         else emitError rid
                (StatusError (''Nock: No match for request '' @ stringifyRequest h (opts r) requestBody)
                   404) w1)"

text \<open>\<^verbatim>\<open>end\<close> from "interceptor identified, starting mocking" on.\<close>

definition end_matched ::
  "helpers \<Rightarrow> nat \<Rightarrow> nat \<Rightarrow> string \<Rightarrow> bool \<Rightarrow> world \<Rightarrow> js_error option \<times> world" where
  "end_matched h rid iref requestBody isBinaryRequestBodyBuffer w =
     (let w1 = setRequestHeaders h rid (interceptorObjs w iref) w;
          w2 = updInterceptor iref (\<lambda>i. i\<lparr>i_req := Some rid\<rparr>) w1;
          w3 = updRequest rid (\<lambda>r. r\<lparr>r_headers := reqHeaders r\<rparr>) w2;
          w4 = emit (ScopeRequest iref rid requestBody) w3;
          i = interceptorObjs w4 iref
      in if errorMessage i \<noteq> JUndefined then
           let w5 = consume iref w4;
               err = (if isObject (errorMessage i) then Thrown (errorMessage i)
                      else newError (errorMessage i))
           in (None, schedule (TErrorLater rid (getTotalDelay (interceptorObjs w5 iref)) err) w5)
         else
           let w5 = updRequest rid
                      (\<lambda>r. r\<lparr>res_statusCode := statusCode i, res_rawHeaders := rawHeaders i\<rparr>) w4
           in case replyFunction i of
                Some fn \<Rightarrow> callReplyFunction h rid fn (TReply rid iref) requestBody w5
              | None \<Rightarrow>
                 (case fullReplyFunction i of
                    Some fn \<Rightarrow> callReplyFunction h rid fn (TFullReply rid iref) requestBody w5
                  | None \<Rightarrow>
                     if isContentEncoded h (i_headers i) \<and> \<not> isStream (body i) then
                       (if delayInMs i \<noteq> 0 then
                          (None,
                           emitError rid
                             (Error ''Response delay of the body is currently not supported with content-encoded responses.'')
                             w5)
                        else
                          (case hexBuffers h (case body i of JArr xs \<Rightarrow> xs | b \<Rightarrow> [b]) of
                             Inl e \<Rightarrow> (Some e, w5)
                           | Inr bufs \<Rightarrow>
                               continueWithResponseBody h rid iref JUndefined
                                 (updRequest rid (\<lambda>r. r\<lparr>responseBuffers := Some bufs\<rparr>) w5)))
                     else if isBinaryRequestBodyBuffer \<and> js_typeof (body i) = ''string'' then
                       (case Buffer_from h (body i) (JStr ''hex'') of
                          Inl e \<Rightarrow> (Some e, w5)
                        | Inr b \<Rightarrow>
                            if body i \<noteq> JStr [] \<and> length b = 0 then
                              (case Buffer_from h (body i) (JStr ''utf8'') of
                                 Inl e \<Rightarrow> (Some e, w5)
                               | Inr b' \<Rightarrow> continueWithResponseBody h rid iref (JBuffer b') w5)
                            else continueWithResponseBody h rid iref (JBuffer b) w5)
                     else continueWithResponseBody h rid iref (body i) w5))"

text \<open>\<^verbatim>\<open>end\<close> up to the search: the request is marked as ended, the path, the
  headers and the protocol are put back into \<^verbatim>\<open>options\<close>, and the request headers
  are set for each interceptor of the array in turn.\<close>

definition prepareMatch :: "helpers \<Rightarrow> nat \<Rightarrow> world \<Rightarrow> world" where
  "prepareMatch h rid w =
     (let w1 = updRequest rid (\<lambda>r. r\<lparr>ended := True\<rparr>) w;
          w2 = updRequest rid
                 (\<lambda>r. r\<lparr>opts := (opts r)\<lparr>path := reqPath r, headers := reqHeaders r,
                                          protocol := Some (proto (opts r) @ '':'')\<rparr>\<rparr>) w1
      in foldl (\<lambda>w' iref. setRequestHeaders h rid (interceptorObjs w' iref) w') w2
           (arrays w2 (interceptors (requests w2 rid))))"

text \<open>The request body as the matcher sees it: the hexadecimal representation when
  \<^verbatim>\<open>isBinaryRequestBodyBuffer\<close> holds, the text otherwise.\<close>

definition requestBodyOf :: "helpers \<Rightarrow> request \<Rightarrow> string" where
  "requestBodyOf h r =
     (let requestBodyBuffer = concat (requestBodyBuffers r)
      in if isUtf8Representable h requestBodyBuffer then Buffer_toString h requestBodyBuffer ''hex''
         else Buffer_toString h requestBodyBuffer ''utf8'')"

text \<open>The predicate of the search, \<^verbatim>\<open>i => i.match(options, requestBody)\<close>, in the
  world that \<open>prepareMatch\<close> leaves.\<close>

definition interceptorMatches :: "helpers \<Rightarrow> nat \<Rightarrow> world \<Rightarrow> nat \<Rightarrow> bool" where
  "interceptorMatches h rid w iref =
     match (interceptorObjs w iref) (opts (requests w rid)) (reqHeaders (requests w rid))
       (requestBodyOf h (requests w rid))"

definition end_fn :: "helpers \<Rightarrow> nat \<Rightarrow> world \<Rightarrow> js_error option \<times> world" where
  "end_fn h rid w =
     (let w3 = prepareMatch h rid w;
          r3 = requests w3 rid;
          requestBodyBuffer = concat (requestBodyBuffers r3);
          candidates = arrays w3 (interceptors r3)
      in case array_find (interceptorMatches h rid w3) candidates of
           None \<Rightarrow> (None, end_noMatch h rid (requestBodyOf h r3) requestBodyBuffer candidates w3)
         | Some iref \<Rightarrow>
             end_matched h rid iref (requestBodyOf h r3) (isUtf8Representable h requestBodyBuffer) w3)"

subsection \<open>The methods of the overridden request\<close>

text \<open>The callback that \<^verbatim>\<open>req.write\<close> receives: an argument of the caller (a
  function or not), or the arrow function that \<^verbatim>\<open>req.end\<close> builds around the
  caller's own callback. \<open>callUser\<close> is
  \<^verbatim>\<open>if (typeof callback === 'function') { callback() }\<close>: the call of a user function
  is recorded, and it returns or raises as \<open>callCallback\<close> says; an exception leaves
  the caller.\<close>

datatype callback = Arg jsval | EndClosure jsval

definition callUser :: "helpers \<Rightarrow> jsval \<Rightarrow> world \<Rightarrow> js_error option \<times> world" where
  "callUser h v w =
     (case v of JFun f \<Rightarrow> (callCallback h f, emit (Callback f) w) | _ \<Rightarrow> (None, w))"

definition invoke :: "helpers \<Rightarrow> nat \<Rightarrow> callback \<Rightarrow> world \<Rightarrow> js_error option \<times> world" where
  "invoke h rid cb w =
     (case cb of
        Arg v \<Rightarrow> callUser h v w
      | EndClosure v \<Rightarrow>
          (case callUser h v w of
             (Some e, w0) \<Rightarrow> (Some e, w0)
           | (None, w0) \<Rightarrow>
               (case end_fn h rid w0 of
                  (Some e, w1) \<Rightarrow> (Some e, w1)
                | (None, w1) \<Rightarrow>
                    (None, emit (Emit rid ''end'') (emit (Emit rid ''finish'') w1)))))"

text \<open>\<^verbatim>\<open>req.write\<close>: the value it returns, or the exception that leaves it, and the
  world after the call.\<close>

definition req_write ::
  "helpers \<Rightarrow> nat \<Rightarrow> jsval \<Rightarrow> jsval \<Rightarrow> callback \<Rightarrow> world \<Rightarrow> (js_error + jsval) \<times> world" where
  "req_write h rid buffer encoding cb w =
     (case (if \<not> aborted (requests w rid) then
              (case (if truthy buffer then
                       (case (case buffer of JBuffer b \<Rightarrow> Inr b | _ \<Rightarrow> Buffer_from h buffer encoding) of
                          Inl e \<Rightarrow> Inl e
                        | Inr b \<Rightarrow>
                            Inr (updRequest rid
                                   (\<lambda>r. r\<lparr>requestBodyBuffers := requestBodyBuffers r @ [b]\<rparr>) w))
                     else Inr w) of
                 Inl e \<Rightarrow> (Some e, w)
               | Inr w1 \<Rightarrow> invoke h rid cb w1)
            else (None, emitError rid (Error ''Request aborted'') w)) of
        (Some e, w2) \<Rightarrow> (Inl e, w2)
      | (None, w2) \<Rightarrow> (Inr (JBool False), schedule (TDrain rid) w2))"

definition req_end ::
  "helpers \<Rightarrow> nat \<Rightarrow> jsval \<Rightarrow> jsval \<Rightarrow> jsval \<Rightarrow> world \<Rightarrow> js_error option \<times> world" where
  "req_end h rid chunk encoding cb w =
     (let (chunk1, encoding1, cb1) =
            (if js_typeof chunk = ''function'' then (JNull, encoding, chunk)
             else if js_typeof encoding = ''function'' then (chunk, JNull, encoding)
             else (chunk, encoding, cb))
      in case (if \<not> aborted (requests w rid) \<and> \<not> ended (requests w rid) then
                 (case req_write h rid chunk1 encoding1 (EndClosure cb1) w of
                    (Inl e, w1) \<Rightarrow> (Some e, w1)
                  | (Inr _, w1) \<Rightarrow> (None, w1))
               else (None, w)) of
           (Some e, w1) \<Rightarrow> (Some e, w1)
         | (None, w1) \<Rightarrow>
             (None, if aborted (requests w1 rid) then emitError rid (Error ''Request aborted'') w1
                    else w1))"

definition flushHeaders :: "helpers \<Rightarrow> nat \<Rightarrow> world \<Rightarrow> js_error option \<times> world" where
  "flushHeaders h rid w =
     (case (if \<not> aborted (requests w rid) \<and> \<not> ended (requests w rid) then end_fn h rid w
            else (None, w)) of
        (Some e, w1) \<Rightarrow> (Some e, w1)
      | (None, w1) \<Rightarrow>
          (None, if aborted (requests w1 rid) then emitError rid (Error ''Request aborted'') w1
                 else w1))"

text \<open>\<^verbatim>\<open>req.abort\<close>; \<^verbatim>\<open>req.aborted\<close> holds a time stamp, of which the code only
  tests the truth.\<close>

definition abort :: "helpers \<Rightarrow> nat \<Rightarrow> world \<Rightarrow> js_error option \<times> world" where
  "abort h rid w =
     (if aborted (requests w rid) then (None, w)
      else
        let w1 = updRequest rid (\<lambda>r. r\<lparr>aborted := True\<rparr>) w
        in case (if \<not> ended (requests w1 rid) then end_fn h rid w1 else (None, w1)) of
             (Some e, w2) \<Rightarrow> (Some e, w2)
           | (None, w2) \<Rightarrow>
               (None,
                emitError rid (CodedError ''socket hang up'' ''ECONNRESET'')
                  (emit (Emit rid ''abort'')
                     (emit (SocketDestroy rid) (emit (ResponseClose rid) w2)))))"

text \<open>The listeners that \<^verbatim>\<open>continueWithResponseBody\<close> attaches to a body stream.\<close>

definition onData :: "nat \<Rightarrow> jsval \<Rightarrow> world \<Rightarrow> world" where
  "onData rid d w = (if bodyListeners (requests w rid) then emit (Push rid d) w else w)"

definition onEnd :: "nat \<Rightarrow> world \<Rightarrow> world" where
  "onEnd rid w =
     (if bodyListeners (requests w rid)
      then updRequest rid (\<lambda>r. r\<lparr>complete := True\<rparr>) (emit (Push rid JNull) w) else w)"

definition onError :: "nat \<Rightarrow> jsval \<Rightarrow> world \<Rightarrow> world" where
  "onError rid err w = (if bodyListeners (requests w rid) then emit (ResponseError rid err) w else w)"

text \<open>
  \<^verbatim>\<open>RequestOverrider\<close>, as far as it sets up the state above: \<open>hdrs\<close> is the header
  map of \<^verbatim>\<open>req\<close> once the constructor has copied the headers and the authorization of
  \<^verbatim>\<open>options\<close> into it, \<open>arr\<close> the array \<^verbatim>\<open>interceptors\<close>. The socket events are
  deferred to the next tick.
\<close>

definition RequestOverrider ::
  "nat \<Rightarrow> options \<Rightarrow> (string \<rightharpoonup> string) \<Rightarrow> bool \<Rightarrow> bool \<Rightarrow> nat \<Rightarrow> world \<Rightarrow> world" where
  "RequestOverrider rid options0 hdrs clientRequest authorized arr w =
     schedule (TSocket rid)
       (w\<lparr>requests := (requests w)
            (rid := \<lparr>opts = options0, interceptors = arr, isClientRequest = clientRequest,
                     socketAuthorized = authorized, reqHeaders = hdrs, reqPath = path options0,
                     r_headers = Map.empty, requestBodyBuffers = [], ended = False,
                     aborted = False, res_statusCode = JNull, res_rawHeaders = [],
                     res_headers = JObj [], complete = False, responseBody = JUndefined,
                     responseBuffers = None, bodyListeners = False\<rparr>)\<rparr>)"

subsection \<open>Running the scheduled continuations\<close>

text \<open>An exception inside a reaction to a promise is caught by
  \<^verbatim>\<open>.catch(emitError)\<close>.\<close>

definition caught :: "nat \<Rightarrow> js_error option \<times> world \<Rightarrow> world" where
  "caught rid res = (case res of (Some e, w) \<Rightarrow> emitError rid e w | (None, w) \<Rightarrow> w)"

fun run_task :: "helpers \<Rightarrow> task \<Rightarrow> world \<Rightarrow> world" where
  "run_task h (TSocket rid) w =
     (let w1 = emit (SocketEmit rid ''connect'') (emit (Emit rid ''socket'') w)
      in if socketAuthorized (requests w1 rid) then emit (SocketEmit rid ''secureConnect'') w1
         else w1)"
| "run_task h (TContinue rid) w = emit (Emit rid ''continue'') w"
| "run_task h (TDrain rid) w = emit (Emit rid ''drain'') w"
| "run_task h (TError rid e) w = emit (EmitError rid e) w"
| "run_task h (TErrorLater rid ms e) w = emitError rid e w"
| "run_task h (TReply rid iref (Fulfilled v)) w = caught rid (continueWithResponseBody h rid iref v w)"
| "run_task h (TReply rid iref (Rejected e)) w = emitError rid e w"
| "run_task h (TFullReply rid iref (Fulfilled v)) w =
     caught rid (continueWithFullResponse h rid iref v w)"
| "run_task h (TFullReply rid iref (Rejected e)) w = emitError rid e w"
| "run_task h (TRespond rid iref) w = respond rid iref w"
| "run_task h (TRespondLater rid iref ms) w = respond' rid iref w"
| "run_task h (TEmitChunk rid iref) w = emitChunk rid iref w"

text \<open>One turn of the scheduler runs the oldest continuation; \<open>turns n\<close> runs \<open>n\<close> of
  them. Node runs the continuations of one kind in the order of their scheduling, but
  those of the next tick and the reactions to promises before the immediates and the
  timers: where continuations of several kinds are pending, Node may run them in
  another order than this one.\<close>

definition turn :: "helpers \<Rightarrow> world \<Rightarrow> world" where
  "turn h w = (case pending w of [] \<Rightarrow> w | t # ts \<Rightarrow> run_task h t (w\<lparr>pending := ts\<rparr>))"

fun turns :: "helpers \<Rightarrow> nat \<Rightarrow> world \<Rightarrow> world" where
  "turns h 0 w = w"
| "turns h (Suc n) w = turns h n (turn h w)"



subsection \<open>The response of one request\<close>





subsection \<open>Requests handled one at a time\<close>

text \<open>The reactions to the promise of a reply function of request \<open>rid\<close>, and the
  reactions of any request.\<close>

fun isReaction :: "nat \<Rightarrow> task \<Rightarrow> bool" where
  "isReaction rid (TReply r iref s) = (r = rid)"
| "isReaction rid (TFullReply r iref s) = (r = rid)"
| "isReaction rid t = False"

definition anyReaction :: "task \<Rightarrow> bool" where
  "anyReaction t = (\<exists>rid. isReaction rid t)"

text \<open>
  One request handled before the next one is looked at: \<^verbatim>\<open>end\<close> runs for it, and
  when \<^verbatim>\<open>end\<close> has called a reply function, the reaction to its promise runs
  next. The continuations that respond stay scheduled.
\<close>

definition serve :: "helpers \<Rightarrow> nat \<Rightarrow> world \<Rightarrow> world" where
  "serve h rid w =
     (let w1 = snd (end_fn h rid w)
      in case array_find (isReaction rid) (pending w1) of
           None \<Rightarrow> w1
         | Some t \<Rightarrow> run_task h t (w1\<lparr>pending := remove1 t (pending w1)\<rparr>))"

text \<open>What the registry holds and what \<^verbatim>\<open>remove\<close> reads: for each interceptor
  object its counter, its count of interceptions, its base path and whether its scope
  persists; the arrays; the table; and for each request the array it searches.\<close>

definition registry ::
  "world \<Rightarrow> (nat \<Rightarrow> int \<times> int \<times> string \<times> bool) \<times> (nat \<Rightarrow> nat list) \<times> (string \<rightharpoonup> entry)
     \<times> (nat \<Rightarrow> nat)" where
  "registry w =
     (\<lambda>x. (counter (interceptorObjs w x), interceptionCounter (interceptorObjs w x),
            basePath (interceptorObjs w x), shouldPersist (nock_scope (interceptorObjs w x))),
      arrays w, allInterceptors w, \<lambda>rid. interceptors (requests w rid))"

text \<open>What \<^verbatim>\<open>end\<close> does to the registry once it has found the interceptor \<open>iref\<close>:
  it schedules the reaction to a reply function and leaves the registry alone, or it
  schedules no reaction and has consumed \<open>iref\<close> or nothing.\<close>

definition endEffect :: "nat \<Rightarrow> nat \<Rightarrow> world \<Rightarrow> world \<Rightarrow> bool" where
  "endEffect rid iref w w1 \<longleftrightarrow>
     ((\<exists>s. pending w1 = pending w @ [TReply rid iref s]
          \<or> pending w1 = pending w @ [TFullReply rid iref s]) \<and> registry w1 = registry w)
     \<or> (\<exists>ts. pending w1 = pending w @ ts \<and> (\<forall>t\<in>set ts. \<not> anyReaction t)
            \<and> (registry w1 = registry w \<or> registry w1 = registry (consume iref w)))"

section \<open>A concrete scenario\<close>

text \<open>
  One instance of the helpers, for the examples: hexadecimal text is decoded pair by
  pair up to the first pair that is not hexadecimal, as \<^verbatim>\<open>Buffer.from(s, 'hex')\<close>
  does, any other text is its bytes, a Buffer is copied and every other value is
  refused; a header object is content-encoded when its \<^verbatim>\<open>content-encoding\<close> is a
  non-empty string; a headers argument is an object of strings or absent; a user
  callback returns; the header names are ASCII, so that lower-casing maps the letters
  \<^verbatim>\<open>A\<close> to \<^verbatim>\<open>Z\<close> only.
\<close>

definition lowerChar :: "char \<Rightarrow> char" where
  "lowerChar c =
     (case map_of (zip ''ABCDEFGHIJKLMNOPQRSTUVWXYZ'' ''abcdefghijklmnopqrstuvwxyz'') c of
        Some l \<Rightarrow> l
      | None \<Rightarrow> c)"

definition asciiLowerCase :: "string \<Rightarrow> string" where
  "asciiLowerCase s = map lowerChar s"

definition hexDigit :: "char \<Rightarrow> nat option" where
  "hexDigit c = map_of (zip ''0123456789abcdefABCDEF'' ([0 ..< 16] @ [10 ..< 16])) c"

fun hexBytes :: "string \<Rightarrow> bytes" where
  "hexBytes (a # b # rest) =
     (case (hexDigit a, hexDigit b) of
        (Some x, Some y) \<Rightarrow> char_of (16 * x + y) # hexBytes rest
      | _ \<Rightarrow> [])"
| "hexBytes s = []"

definition hexText :: "bytes \<Rightarrow> string" where
  "hexText b =
     concat (map (\<lambda>c. [''0123456789abcdef'' ! (of_char c div 16),
                         ''0123456789abcdef'' ! (of_char c mod 16)]) b)"

fun commaSeparated :: "string list \<Rightarrow> string" where
  "commaSeparated [] = []"
| "commaSeparated [x] = x"
| "commaSeparated (x # y # ys) = x @ '','' @ commaSeparated (y # ys)"

fun jsonText :: "jsval \<Rightarrow> string" where
  "jsonText (JStr s) = ''\"'' @ s @ ''\"''"
| "jsonText (JBool b) = (if b then ''true'' else ''false'')"
| "jsonText (JArr xs) = ''['' @ commaSeparated (map jsonText xs) @ '']''"
| "jsonText (JObj kvs) =
     ''{'' @ commaSeparated (map (\<lambda>(k, v). ''\"'' @ k @ ''\":'' @ jsonText v) kvs) @ ''}''"
| "jsonText v = ''null''"

definition exampleHelpers :: helpers where
  "exampleHelpers =
     \<lparr>isUtf8Representable = (\<lambda>b. False),
      isContentEncoded =
        (\<lambda>hs. case hs of
                 JObj kvs \<Rightarrow> (case map_of kvs ''content-encoding'' of
                               Some (JStr s) \<Rightarrow> s \<noteq> [] | _ \<Rightarrow> False)
               | _ \<Rightarrow> False),
      isJSONContent = (\<lambda>hs. hs ''content-type'' = Some ''application/json''),
      contentEncoding = (\<lambda>hs enc. hs ''content-encoding'' = Some enc),
      headersArrayToObject = JObj,
      headersInputToRawArray =
        (\<lambda>v. case v of
                JUndefined \<Rightarrow> Inr []
              | JObj kvs \<Rightarrow> Inr kvs
              | _ \<Rightarrow> Inl (Error ''Headers must be provided as an array of raw values, a Map, or a plain Object'')),
      stringifyRequest = (\<lambda>opts requestBody. http_method opts @ '' '' @ path opts),
      Buffer_from =
        (\<lambda>v enc. case v of
                    JStr s \<Rightarrow> Inr (if enc = JStr ''hex'' then hexBytes s else s)
                  | JBuffer b \<Rightarrow> Inr b
                  | _ \<Rightarrow> Inl (Thrown (JStr ''TypeError''))),
      Buffer_toString = (\<lambda>b enc. if enc = ''hex'' then hexText b else b),
      gunzipSync = (\<lambda>b. Inl (Thrown (JStr ''Z_DATA_ERROR''))),
      inflateSync = (\<lambda>b. Inl (Thrown (JStr ''Z_DATA_ERROR''))),
      JSON_parse = (\<lambda>s. Inl (Thrown (JStr ''SyntaxError''))),
      JSON_stringify = (\<lambda>v. case v of JUndefined \<Rightarrow> JUndefined | JFun f \<Rightarrow> JUndefined
                                 | _ \<Rightarrow> JStr (jsonText v)),
      callHeader = (\<lambda>f rid responseBody0. JStr ''computed''),
      callCallback = (\<lambda>f. None),
      toLowerCase = asciiLowerCase\<rparr>"

text \<open>A scope that does not persist, and an interceptor for
  \<^verbatim>\<open>GET http://x.test/a\<close> that replies 200 with the body \<^verbatim>\<open>"ok"\<close>, once.\<close>

definition exampleScope :: scope where
  "exampleScope = \<lparr>shouldPersist = False, defaultReplyHeaders = []\<rparr>"

definition exampleInterceptor :: interceptor where
  "exampleInterceptor =
     \<lparr>basePath = ''http://x.test'', counter = 1, interceptionCounter = 0,
      match = (\<lambda>opts hs requestBody. http_method opts = ''GET'' \<and> path opts = ''/a''),
      matchHostName = (\<lambda>opts. host opts = Some ''x.test''),
      allowUnmocked = False, i_scope = exampleScope, nock_scope = exampleScope,
      nock_scopeKey = [], nock_scopeAllowUnmocked = False, nock_scopeHost = None,
      nock_filteredScope = None, errorMessage = JUndefined, statusCode = JNum 200,
      rawHeaders = [], i_headers = JObj [], replyFunction = None, fullReplyFunction = None,
      body = JStr ''ok'', delayInMs = 0, delayConnectionInMs = 0, socketDelayInMs = 0,
      i_req = None\<rparr>"

definition exampleOptions :: options where
  "exampleOptions =
     \<lparr>host = Some ''x.test'', port = Some 80, proto = ''http'', protocol = None,
      path = ''/a'', http_method = ''GET'', headers = Map.empty\<rparr>"

text \<open>The world in which the interceptor object \<open>i\<close> sits at address 0 and has been
  registered under \<^verbatim>\<open>http://x.test\<close>, whose array is at address 0, and in which the
  requests 1 and 2 have been created for that array. The socket events of the two
  requests are over: nothing is scheduled, and they are left out of the trace.\<close>

definition emptyWorld :: "interceptor \<Rightarrow> world" where
  "emptyWorld i =
     \<lparr>interceptorObjs = (\<lambda>_. i), arrays = (\<lambda>_. []), allInterceptors = Map.empty,
      nextArray = 0, requests = (\<lambda>_. undefined), pending = [], trace = []\<rparr>"

definition exampleWorld :: "interceptor \<Rightarrow> world" where
  "exampleWorld i =
     (RequestOverrider 2 exampleOptions Map.empty True False 0
       (RequestOverrider 1 exampleOptions Map.empty True False 0
         (add ''http://x.test'' 0 (i_scope i) False (Some ''x.test'') (emptyWorld i))))
       \<lparr>pending := []\<rparr>"

text \<open>The same world once a second interceptor, at address 1, has been registered
  under the same key.\<close>

definition exampleWorld2 :: world where
  "exampleWorld2 =
     add ''http://x.test'' 1 exampleScope False (Some ''x.test'') (exampleWorld exampleInterceptor)"

text \<open>The interceptor whose reply is the chunk list \<^verbatim>\<open>["1f8b", "0000"]\<close> with the
  header \<^verbatim>\<open>content-encoding: gzip\<close>.\<close>

definition encodedInterceptor :: interceptor where
  "encodedInterceptor =
     exampleInterceptor
       \<lparr>i_headers := JObj [(''content-encoding'', JStr ''gzip'')],
        body := JArr [JStr ''1f8b'', JStr ''0000'']\<rparr>"

text \<open>The interceptor whose reply is computed by a function of two parameters that
  returns \<open>v\<close>.\<close>

definition functionInterceptor :: "jsval \<Rightarrow> interceptor" where
  "functionInterceptor v =
     exampleInterceptor
       \<lparr>replyFunction := Some \<lparr>fn_length = 2, fn_call = (\<lambda>uri requestBody. Returns v)\<rparr>,
        body := JUndefined\<rparr>"

section \<open>Unfolding the model\<close>

lemmas scenario_defs =
  exampleWorld_def exampleWorld2_def emptyWorld_def exampleOptions_def exampleInterceptor_def
  encodedInterceptor_def functionInterceptor_def exampleScope_def exampleHelpers_def RequestOverrider_def add_def

lemmas state_defs = updInterceptor_def updRequest_def schedule_def emit_def emitError_def

lemmas end_defs =
  end_fn_def prepareMatch_def setRequestHeaders_def setHeader_def getHeader_def truthyString_def
  requestBodyOf_def interceptorMatches_def end_matched_def end_noMatch_def
  callReplyFunction_def parseJSONRequestBody_def newError_def isObject_def getTotalDelay_def
  continueWithResponseBody_def continueWithFullResponse_def parseFullReplyResult_def element_def
  transformBody_def consume_def remove_def evaluateHeaders_def headerValue_def
  selectDefaultHeaders_def asciiLowerCase_def lowerChar_def caught_def

lemmas request_defs =
  req_end_def req_write_def invoke_def callUser_def flushHeaders_def abort_def turn_def
  respond_def respond'_def emitChunk_def

section \<open>The search of \<^verbatim>\<open>end\<close>\<close>

lemma array_find_Some:
  "array_find p xs = Some r \<Longrightarrow>
     \<exists>earlier later. xs = earlier @ r # later \<and> p r \<and> (\<forall>x\<in>set earlier. \<not> p x)"
proof (induction xs)
  case Nil
  then show ?case by simp
next
  case (Cons a xs)
  show ?case
  proof (cases "p a")
    case True
    with Cons.prems have "a = r" by simp
    with True have "a # xs = [] @ r # xs \<and> p r \<and> (\<forall>x\<in>set []. \<not> p x)" by simp
    then show ?thesis by blast
  next
    case False
    with Cons.prems have "array_find p xs = Some r" by simp
    from Cons.IH [OF this] obtain earlier later
      where "xs = earlier @ r # later" "p r" "\<forall>x\<in>set earlier. \<not> p x" by blast
    with False
    have "a # xs = (a # earlier) @ r # later \<and> p r \<and> (\<forall>x\<in>set (a # earlier). \<not> p x)"
      by simp
    then show ?thesis by blast
  qed
qed

lemma array_find_None: "array_find p xs = None \<longleftrightarrow> (\<forall>x\<in>set xs. \<not> p x)"
  by (induction xs) auto

lemma array_find_index:
  "i < length xs \<Longrightarrow> p (xs ! i) \<Longrightarrow>
     \<exists>k\<le>i. array_find p xs = Some (xs ! k) \<and> p (xs ! k) \<and> (\<forall>m<k. \<not> p (xs ! m))"
proof (induction xs arbitrary: i)
  case Nil
  then show ?case by simp
next
  case (Cons a xs)
  show ?case
  proof (cases "p a")
    case True
    then have "array_find p (a # xs) = Some ((a # xs) ! 0) \<and> p ((a # xs) ! 0)
        \<and> (\<forall>m<0. \<not> p ((a # xs) ! m))"
      by simp
    then show ?thesis by blast
  next
    case False
    with Cons.prems obtain i' where i': "i = Suc i'" by (cases i) auto
    with Cons.prems have "i' < length xs" "p (xs ! i')" by auto
    from Cons.IH [OF this] obtain k where k: "k \<le> i'" "array_find p xs = Some (xs ! k)"
      "p (xs ! k)" "\<forall>m<k. \<not> p (xs ! m)" by blast
    have "\<forall>m<Suc k. \<not> p ((a # xs) ! m)"
    proof (intro allI impI)
      fix m assume "m < Suc k"
      with k(4) False show "\<not> p ((a # xs) ! m)" by (cases m) auto
    qed
    with k False i' have "Suc k \<le> i \<and> array_find p (a # xs) = Some ((a # xs) ! Suc k)
        \<and> p ((a # xs) ! Suc k) \<and> (\<forall>m<Suc k. \<not> p ((a # xs) ! m))"
      by simp
    then show ?thesis by blast
  qed
qed

lemma add_existing:
  "allInterceptors w k = Some e \<Longrightarrow>
     arrays (add k iref sc u hst w) (scopes e) = arrays w (scopes e) @ [iref] \<and>
     (\<exists>e'. allInterceptors (add k iref sc u hst w) k = Some e' \<and> scopes e' = scopes e)"
  by (simp add: add_def updInterceptor_def Let_def)

text \<open>
  Claim C4. \<^verbatim>\<open>add\<close> pushes an interceptor at the end of the array of its key, so the
  array is in registration order. In \<^verbatim>\<open>end\<close>, once the request headers are set, the
  candidates are tried from index 0 on: if the candidate at index \<open>i\<close> accepts the
  request, the interceptor that \<^verbatim>\<open>end\<close> goes on with is the candidate at some index
  \<open>k \<le> i\<close> that accepts the request while no candidate before \<open>k\<close> does. Of two
  accepting candidates the one registered earlier is taken, and nothing is retried.
\<close>

theorem first_accepting_interceptor_is_selected:
  assumes "w3 = prepareMatch h rid w"
    and "candidates = arrays w3 (interceptors (requests w3 rid))"
    and "i < length candidates"
    and "interceptorMatches h rid w3 (candidates ! i)"
  shows "(\<exists>k\<le>i. array_find (interceptorMatches h rid w3) candidates = Some (candidates ! k)
            \<and> interceptorMatches h rid w3 (candidates ! k)
            \<and> (\<forall>m<k. \<not> interceptorMatches h rid w3 (candidates ! m))
            \<and> end_fn h rid w =
                end_matched h rid (candidates ! k) (requestBodyOf h (requests w3 rid))
                  (isUtf8Representable h (concat (requestBodyBuffers (requests w3 rid)))) w3)
         \<and> (\<forall>key e i1 sc1 u1 hst1 i2 sc2 u2 hst2 w0.
               allInterceptors w0 key = Some e \<longrightarrow>
               arrays (add key i2 sc2 u2 hst2 (add key i1 sc1 u1 hst1 w0)) (scopes e)
                 = arrays w0 (scopes e) @ [i1, i2])"
proof (intro conjI allI impI)
  from array_find_index [of i candidates "interceptorMatches h rid w3", OF assms(3,4)]
  obtain k where k: "k \<le> i"
    "array_find (interceptorMatches h rid w3) candidates = Some (candidates ! k)"
    "interceptorMatches h rid w3 (candidates ! k)"
    "\<forall>m<k. \<not> interceptorMatches h rid w3 (candidates ! m)"
    by blast
  from k(2) have "end_fn h rid w =
      end_matched h rid (candidates ! k) (requestBodyOf h (requests w3 rid))
        (isUtf8Representable h (concat (requestBodyBuffers (requests w3 rid)))) w3"
    by (simp add: end_fn_def Let_def assms(1,2) [symmetric])
  with k show "\<exists>k\<le>i. array_find (interceptorMatches h rid w3) candidates = Some (candidates ! k)
            \<and> interceptorMatches h rid w3 (candidates ! k)
            \<and> (\<forall>m<k. \<not> interceptorMatches h rid w3 (candidates ! m))
            \<and> end_fn h rid w =
                end_matched h rid (candidates ! k) (requestBodyOf h (requests w3 rid))
                  (isUtf8Representable h (concat (requestBodyBuffers (requests w3 rid)))) w3"
    by blast
next
  fix key e i1 sc1 u1 hst1 i2 sc2 u2 hst2 and w0 :: world
  assume e: "allInterceptors w0 key = Some e"
  from add_existing [OF e, of i1 sc1 u1 hst1]
  obtain e' where 1: "arrays (add key i1 sc1 u1 hst1 w0) (scopes e) = arrays w0 (scopes e) @ [i1]"
    and 2: "allInterceptors (add key i1 sc1 u1 hst1 w0) key = Some e'"
    and 3: "scopes e' = scopes e"
    by blast
  from add_existing [OF 2, of i2 sc2 u2 hst2] 1 3
  show "arrays (add key i2 sc2 u2 hst2 (add key i1 sc1 u1 hst1 w0)) (scopes e)
          = arrays w0 (scopes e) @ [i1, i2]"
    by simp
qed

text \<open>The scenario with a second interceptor for the same request, registered after
  the first: both accept request 1, and the first is taken.\<close>

lemma exampleWorld2_candidates:
  "arrays (prepareMatch exampleHelpers 1 exampleWorld2) (interceptors (requests (prepareMatch exampleHelpers 1 exampleWorld2) 1))
     = [0, 1]"
  by (simp add: scenario_defs state_defs end_defs Let_def)

lemma exampleWorld2_matches:
  "interceptorMatches exampleHelpers 1 (prepareMatch exampleHelpers 1 exampleWorld2) x"
  by (simp add: scenario_defs state_defs end_defs Let_def)

theorem first_accepting_interceptor_is_selected_witness:
  "arrays exampleWorld2 0 = [0, 1]
   \<and> interceptorMatches exampleHelpers 1 (prepareMatch exampleHelpers 1 exampleWorld2) 0
   \<and> interceptorMatches exampleHelpers 1 (prepareMatch exampleHelpers 1 exampleWorld2) 1
   \<and> array_find (interceptorMatches exampleHelpers 1 (prepareMatch exampleHelpers 1 exampleWorld2)) [0, 1]
       = Some 0"
proof -
  have a: "[0, 1 :: nat] =
      arrays (prepareMatch exampleHelpers 1 exampleWorld2) (interceptors (requests (prepareMatch exampleHelpers 1 exampleWorld2) 1))"
    by (rule exampleWorld2_candidates [symmetric])
  have b: "1 < length [0, 1 :: nat]" by simp
  have c: "interceptorMatches exampleHelpers 1 (prepareMatch exampleHelpers 1 exampleWorld2) ([0, 1] ! 1)"
    by (rule exampleWorld2_matches)
  from first_accepting_interceptor_is_selected [OF refl a b c]
  obtain k where k: "k \<le> 1"
    "array_find (interceptorMatches exampleHelpers 1 (prepareMatch exampleHelpers 1 exampleWorld2)) [0, 1]
       = Some ([0, 1] ! k)"
    "\<forall>m<k. \<not> interceptorMatches exampleHelpers 1 (prepareMatch exampleHelpers 1 exampleWorld2) ([0, 1] ! m)"
    by blast
  have "k = 0"
  proof (rule ccontr)
    assume "k \<noteq> 0"
    with k(3) have "\<not> interceptorMatches exampleHelpers 1 (prepareMatch exampleHelpers 1 exampleWorld2) ([0, 1] ! 0)"
      by blast
    with exampleWorld2_matches [of "[0, 1] ! 0"] show False by blast
  qed
  with k(2) have "array_find (interceptorMatches exampleHelpers 1 (prepareMatch exampleHelpers 1 exampleWorld2)) [0, 1]
       = Some 0" by simp
  moreover have "arrays exampleWorld2 0 = [0, 1]"
    by (simp add: scenario_defs state_defs Let_def)
  ultimately show ?thesis using exampleWorld2_matches by blast
qed

section \<open>Raw headers of the response\<close>

lemma forEachHeader_filter:
  "forEachHeader ds (\<lambda>val fieldName result. if P fieldName then result @ [(fieldName, val)] else result) acc
     = acc @ filter (\<lambda>(n, v). P n) ds"
  by (induction ds arbitrary: acc) auto

lemma forEachHeader_names:
  "forEachHeader hs (\<lambda>_ fieldName defined. insert (f fieldName) defined) S = S \<union> f ` fst ` set hs"
proof (induction hs arbitrary: S)
  case Nil
  then show ?case by simp
next
  case (Cons a hs)
  obtain n v where a: "a = (n, v)" by (cases a)
  show ?case unfolding a by (simp add: Cons.IH)
qed

lemma forEachHeader_map:
  "forEachHeader hs (\<lambda>val fieldName acc. acc @ [(fieldName, g val)]) acc
     = acc @ map (\<lambda>(n, v). (n, g v)) hs"
  by (induction hs arbitrary: acc) auto

lemma selectDefaultHeaders_filter:
  "selectDefaultHeaders h existing defaults =
     filter (\<lambda>(n, v). toLowerCase h n \<notin> toLowerCase h ` fst ` set existing) defaults"
  by (cases defaults)
    (simp_all add: selectDefaultHeaders_def forEachHeader_names forEachHeader_filter Let_def
      del: forEachHeader.simps)

lemma evaluateHeaders_map:
  "evaluateHeaders h rid rb hs = map (\<lambda>(n, v). (n, headerValue h rid rb v)) hs"
  by (simp add: evaluateHeaders_def forEachHeader_map)

lemma consume_requests [simp]: "requests (consume iref w) = requests w"
  by (simp add: consume_def remove_def updInterceptor_def Let_def split: option.splits)

lemma consume_pending [simp]: "pending (consume iref w) = pending w"
  by (simp add: consume_def remove_def updInterceptor_def Let_def split: option.splits)

lemma consume_trace [simp]: "trace (consume iref w) = trace w"
  by (simp add: consume_def remove_def updInterceptor_def Let_def split: option.splits)

lemma consume_i_scope [simp]:
  "i_scope (interceptorObjs (consume iref w) x) = i_scope (interceptorObjs w x)"
  by (simp add: consume_def remove_def updInterceptor_def Let_def split: option.splits)

lemma transformBody_frame:
  "transformBody h rid i b w = Inr (rb, w1) \<Longrightarrow>
     interceptorObjs w1 = interceptorObjs w \<and> arrays w1 = arrays w
     \<and> allInterceptors w1 = allInterceptors w \<and> pending w1 = pending w
     \<and> aborted (requests w1 rid) = aborted (requests w rid)"
  by (auto simp: transformBody_def Let_def updRequest_def emit_def split: if_splits sum.splits)

text \<open>
  Claim C8. When \<^verbatim>\<open>continueWithResponseBody\<close> finalizes the headers of a request
  that is not aborted, the pairs that the response already holds keep their positions
  and their names, and a value changes only by the evaluation of a header function, in
  place. After them come the default headers of the scope, in their order, and only
  those whose lower-cased name is the lower-cased name of no pair already present: no
  default header has the name of an existing header, whatever the case. The names are
  lower-cased by \<^verbatim>\<open>String.prototype.toLowerCase\<close>, whatever it maps them to.
\<close>

theorem header_finalization_keeps_existing_headers:
  assumes "transformBody h rid (interceptorObjs w iref) b w = Inr (rb, w1)"
    and "\<not> aborted (requests w rid)"
  shows "let existing = res_rawHeaders (requests w1 rid);
             defaults = defaultReplyHeaders (i_scope (interceptorObjs w iref));
             final = res_rawHeaders (requests (snd (continueWithResponseBody h rid iref b w)) rid)
         in length existing \<le> length final
          \<and> (\<forall>n<length existing.
                fst (final ! n) = fst (existing ! n)
                \<and> snd (final ! n) = headerValue h rid rb (snd (existing ! n)))
          \<and> map fst (drop (length existing) final) =
              map fst (filter (\<lambda>(name, v). toLowerCase h name \<notin> toLowerCase h ` fst ` set existing)
                         defaults)
          \<and> (\<forall>(name, v)\<in>set (drop (length existing) final).
                \<forall>(name', v')\<in>set existing. toLowerCase h name \<noteq> toLowerCase h name')"
proof -
  define existing where "existing = res_rawHeaders (requests w1 rid)"
  define defaults where "defaults = defaultReplyHeaders (i_scope (interceptorObjs w iref))"
  define ev where "ev = (\<lambda>(n :: string, v). (n, headerValue h rid rb v))"
  define chosen where
    "chosen = filter (\<lambda>(name, v). toLowerCase h name \<notin> toLowerCase h ` fst ` set existing) defaults"
  from transformBody_frame [OF assms(1)] assms(2)
  have fr: "interceptorObjs w1 = interceptorObjs w" "\<not> aborted (requests w1 rid)" by simp_all
  have final: "res_rawHeaders (requests (snd (continueWithResponseBody h rid iref b w)) rid)
      = map ev existing @ map ev chosen"
    using assms(1) fr
    by (simp add: continueWithResponseBody_def Let_def updRequest_def schedule_def
        evaluateHeaders_map selectDefaultHeaders_filter existing_def defaults_def ev_def chosen_def)
  have 1: "\<forall>n<length existing. fst ((map ev existing @ map ev chosen) ! n) = fst (existing ! n)
      \<and> snd ((map ev existing @ map ev chosen) ! n) = headerValue h rid rb (snd (existing ! n))"
    by (simp add: nth_append ev_def split_beta)
  have 2: "map fst (map ev chosen) = map fst chosen"
    by (simp add: ev_def split_beta)
  have 3: "\<forall>(name, v)\<in>set (map ev chosen). \<forall>(name', v')\<in>set existing.
      toLowerCase h name \<noteq> toLowerCase h name'"
    by (auto simp: ev_def chosen_def image_iff split_beta)
  show ?thesis
    unfolding Let_def final existing_def [symmetric] defaults_def [symmetric]
    using 1 2 3 by (simp add: chosen_def)
qed

text \<open>The reply \<^verbatim>\<open>"ok"\<close> with the header \<^verbatim>\<open>Content-Type: text/plain\<close>, in a scope
  whose defaults are \<^verbatim>\<open>content-type\<close> and \<^verbatim>\<open>X-Powered-By\<close>: only the second
  default is appended.\<close>

theorem header_finalization_keeps_existing_headers_witness:
  "res_rawHeaders
     (requests
        (snd (continueWithResponseBody exampleHelpers 1 0 (JStr ''ok'')
                (updRequest 1
                   (\<lambda>r. r\<lparr>res_rawHeaders := [(''Content-Type'', JStr ''text/plain'')]\<rparr>)
                   (exampleWorld
                      (exampleInterceptor
                         \<lparr>i_scope := exampleScope
                            \<lparr>defaultReplyHeaders :=
                               [(''content-type'', JStr ''text/html''),
                                (''X-Powered-By'', JStr ''nock'')]\<rparr>\<rparr>))))) 1)
   = [(''Content-Type'', JStr ''text/plain''), (''X-Powered-By'', JStr ''nock'')]"
proof -
  let ?i = "exampleInterceptor
              \<lparr>i_scope := exampleScope
                 \<lparr>defaultReplyHeaders :=
                    [(''content-type'', JStr ''text/html''), (''X-Powered-By'', JStr ''nock'')]\<rparr>\<rparr>"
  let ?w = "updRequest 1 (\<lambda>r. r\<lparr>res_rawHeaders := [(''Content-Type'', JStr ''text/plain'')]\<rparr>)
              (exampleWorld ?i)"
  let ?final = "res_rawHeaders
      (requests (snd (continueWithResponseBody exampleHelpers 1 0 (JStr ''ok'') ?w)) 1)"
  have t: "transformBody exampleHelpers 1 (interceptorObjs ?w 0) (JStr ''ok'') ?w
      = Inr (JBuffer ''ok'', ?w)"
    by (simp add: transformBody_def scenario_defs state_defs Let_def)
  have a: "\<not> aborted (requests ?w 1)"
    by (simp add: scenario_defs state_defs Let_def)
  have e: "res_rawHeaders (requests ?w 1) = [(''Content-Type'', JStr ''text/plain'')]"
    by (simp add: scenario_defs state_defs Let_def)
  have d: "defaultReplyHeaders (i_scope (interceptorObjs ?w 0))
      = [(''content-type'', JStr ''text/html''), (''X-Powered-By'', JStr ''nock'')]"
    by (simp add: scenario_defs state_defs Let_def)
  from header_finalization_keeps_existing_headers [OF t a]
  have "length ?final \<ge> 1 \<and> fst (?final ! 0) = ''Content-Type''
      \<and> snd (?final ! 0) = JStr ''text/plain''
      \<and> map fst (drop 1 ?final) = [''X-Powered-By'']"
    unfolding Let_def e d
    by (simp add: headerValue_def exampleHelpers_def asciiLowerCase_def lowerChar_def)
  moreover have "snd (?final ! 1) = JStr ''nock''"
    by (simp add: scenario_defs state_defs end_defs Let_def)
  ultimately show ?thesis
    by (cases ?final; cases "tl ?final") (auto simp: drop_Suc)
qed

section \<open>The result of a full-reply function\<close>

lemma updRequest_same [simp]: "updRequest rid (\<lambda>_. requests w rid) w = w"
  by (simp add: updRequest_def)

lemma parseFullReplyResult_invalid:
  "\<not> (\<exists>xs. v = JArr xs \<and> length xs \<le> 3 \<and> Number_isInteger (element xs 0)) \<Longrightarrow>
     \<exists>msg. parseFullReplyResult h r v = (Inl (Error msg), r)"
  by (cases v) (auto simp: parseFullReplyResult_def Let_def)

lemma parseFullReplyResult_valid:
  "length xs \<le> 3 \<Longrightarrow> Number_isInteger (element xs 0) \<Longrightarrow>
     parseFullReplyResult h r (JArr xs) =
       (case headersInputToRawArray h (element xs 2) of
          Inl e \<Rightarrow> (Inl e, r\<lparr>res_statusCode := element xs 0\<rparr>)
        | Inr raw \<Rightarrow>
            (Inr (if element xs 1 = JUndefined then JStr [] else element xs 1),
             r\<lparr>res_statusCode := element xs 0, res_rawHeaders := res_rawHeaders r @ raw\<rparr>))"
  by (simp add: parseFullReplyResult_def Let_def split: sum.splits)

text \<open>
  Claim C5. The reaction to the promise of a full-reply function, for every value \<open>v\<close>
  the promise is fulfilled with:
  \<^item> unless \<open>v\<close> is an array of at most three elements whose first element is an
    integer, the reaction only schedules the emission of an error on the request: no
    event is emitted, the response and the registry are as before, and no continuation
    that would respond is scheduled. When the continuation it has scheduled runs, the
    error is emitted on the request, and nothing else has happened;
  \<^item> the same holds when the third element is refused as headers, except that the
    status has been written into the response;
  \<^item> otherwise the status of the response is the first element, the headers made from
    the third element are appended to the raw headers of the response, and the
    synthesis goes on with the second element as the body, or with the empty string
    when the second element is absent or \<^verbatim>\<open>undefined\<close>.
\<close>

theorem full_reply_result_is_checked:
  "(\<not> (\<exists>xs. v = JArr xs \<and> length xs \<le> 3 \<and> Number_isInteger (element xs 0)) \<longrightarrow>
      (\<exists>msg. run_task h (TFullReply rid iref (Fulfilled v)) w
               = w\<lparr>pending := pending w @ [TError rid (Error msg)]\<rparr>
            \<and> (let w' = run_task h (TFullReply rid iref (Fulfilled v)) w
               in run_task h (last (pending w')) (w'\<lparr>pending := butlast (pending w')\<rparr>)
                    = w\<lparr>trace := trace w @ [EmitError rid (Error msg)]\<rparr>)))
   \<and> (\<forall>xs e. v = JArr xs \<and> length xs \<le> 3 \<and> Number_isInteger (element xs 0)
          \<and> headersInputToRawArray h (element xs 2) = Inl e \<longrightarrow>
        run_task h (TFullReply rid iref (Fulfilled v)) w
          = (updRequest rid (\<lambda>r. r\<lparr>res_statusCode := element xs 0\<rparr>) w)
              \<lparr>pending := pending w @ [TError rid e]\<rparr>
        \<and> (let w' = run_task h (TFullReply rid iref (Fulfilled v)) w
            in run_task h (last (pending w')) (w'\<lparr>pending := butlast (pending w')\<rparr>)
                 = (updRequest rid (\<lambda>r. r\<lparr>res_statusCode := element xs 0\<rparr>) w)
                     \<lparr>trace := trace w @ [EmitError rid e]\<rparr>))
   \<and> (\<forall>xs raw. v = JArr xs \<and> length xs \<le> 3 \<and> Number_isInteger (element xs 0)
          \<and> headersInputToRawArray h (element xs 2) = Inr raw \<longrightarrow>
        run_task h (TFullReply rid iref (Fulfilled v)) w
          = caught rid
              (continueWithResponseBody h rid iref
                 (if element xs 1 = JUndefined then JStr [] else element xs 1)
                 (updRequest rid
                    (\<lambda>r. r\<lparr>res_statusCode := element xs 0,
                            res_rawHeaders := res_rawHeaders r @ raw\<rparr>) w)))"
proof -
  have invalid: "\<exists>msg. run_task h (TFullReply rid iref (Fulfilled v)) w
               = w\<lparr>pending := pending w @ [TError rid (Error msg)]\<rparr>
            \<and> (let w' = run_task h (TFullReply rid iref (Fulfilled v)) w
               in run_task h (last (pending w')) (w'\<lparr>pending := butlast (pending w')\<rparr>)
                    = w\<lparr>trace := trace w @ [EmitError rid (Error msg)]\<rparr>)"
    if "\<not> (\<exists>xs. v = JArr xs \<and> length xs \<le> 3 \<and> Number_isInteger (element xs 0))"
  proof -
    from parseFullReplyResult_invalid [OF that, of h "requests w rid"]
    obtain msg where "parseFullReplyResult h (requests w rid) v = (Inl (Error msg), requests w rid)"
      by blast
    then have r: "run_task h (TFullReply rid iref (Fulfilled v)) w
        = w\<lparr>pending := pending w @ [TError rid (Error msg)]\<rparr>"
      by (simp add: continueWithFullResponse_def caught_def emitError_def schedule_def)
    have "let w' = run_task h (TFullReply rid iref (Fulfilled v)) w
        in run_task h (last (pending w')) (w'\<lparr>pending := butlast (pending w')\<rparr>)
             = w\<lparr>trace := trace w @ [EmitError rid (Error msg)]\<rparr>"
      unfolding r Let_def by (simp add: emit_def)
    with r show ?thesis by blast
  qed
  have refused: "run_task h (TFullReply rid iref (Fulfilled v)) w
          = (updRequest rid (\<lambda>r. r\<lparr>res_statusCode := element xs 0\<rparr>) w)
              \<lparr>pending := pending w @ [TError rid e]\<rparr>
        \<and> (let w' = run_task h (TFullReply rid iref (Fulfilled v)) w
            in run_task h (last (pending w')) (w'\<lparr>pending := butlast (pending w')\<rparr>)
                 = (updRequest rid (\<lambda>r. r\<lparr>res_statusCode := element xs 0\<rparr>) w)
                     \<lparr>trace := trace w @ [EmitError rid e]\<rparr>)"
    if "v = JArr xs \<and> length xs \<le> 3 \<and> Number_isInteger (element xs 0)
          \<and> headersInputToRawArray h (element xs 2) = Inl e" for xs e
  proof -
    from that have r: "run_task h (TFullReply rid iref (Fulfilled v)) w
          = (updRequest rid (\<lambda>r. r\<lparr>res_statusCode := element xs 0\<rparr>) w)
              \<lparr>pending := pending w @ [TError rid e]\<rparr>"
      by (simp add: continueWithFullResponse_def parseFullReplyResult_valid caught_def emitError_def
          schedule_def updRequest_def)
    have "let w' = run_task h (TFullReply rid iref (Fulfilled v)) w
        in run_task h (last (pending w')) (w'\<lparr>pending := butlast (pending w')\<rparr>)
             = (updRequest rid (\<lambda>r. r\<lparr>res_statusCode := element xs 0\<rparr>) w)
                 \<lparr>trace := trace w @ [EmitError rid e]\<rparr>"
      unfolding r Let_def by (simp add: emit_def updRequest_def)
    with r show ?thesis by blast
  qed
  have valid: "run_task h (TFullReply rid iref (Fulfilled v)) w
          = caught rid
              (continueWithResponseBody h rid iref
                 (if element xs 1 = JUndefined then JStr [] else element xs 1)
                 (updRequest rid
                    (\<lambda>r. r\<lparr>res_statusCode := element xs 0,
                            res_rawHeaders := res_rawHeaders r @ raw\<rparr>) w))"
    if "v = JArr xs \<and> length xs \<le> 3 \<and> Number_isInteger (element xs 0)
          \<and> headersInputToRawArray h (element xs 2) = Inr raw" for xs raw
    using that
    by (simp add: continueWithFullResponse_def parseFullReplyResult_valid updRequest_def)
  from invalid refused valid show ?thesis by blast
qed

text \<open>A result of four elements only schedules the error, and the turn that follows
  emits it: the trace holds the error and nothing else. The result
  \<^verbatim>\<open>[201, "created", {x: "y"}]\<close> sets the status 201 and the header \<^verbatim>\<open>x: y\<close>, and
  schedules the response with the body \<^verbatim>\<open>"created"\<close>.\<close>

theorem full_reply_result_is_checked_witness:
  "run_task exampleHelpers
     (TFullReply 1 0 (Fulfilled (JArr [JNum 200, JStr ''a'', JUndefined, JNull])))
     (exampleWorld exampleInterceptor)
   = (exampleWorld exampleInterceptor)
       \<lparr>pending :=
          [TError 1 (Error ''The array returned from the .reply callback contains too many values'')]\<rparr>
   \<and> turn exampleHelpers
       (run_task exampleHelpers
          (TFullReply 1 0 (Fulfilled (JArr [JNum 200, JStr ''a'', JUndefined, JNull])))
          (exampleWorld exampleInterceptor))
     = (exampleWorld exampleInterceptor)
         \<lparr>trace :=
            [EmitError 1
               (Error ''The array returned from the .reply callback contains too many values'')]\<rparr>
   \<and> (let w = run_task exampleHelpers
                 (TFullReply 1 0
                    (Fulfilled (JArr [JNum 201, JStr ''created'', JObj [(''x'', JStr ''y'')]])))
                 (exampleWorld exampleInterceptor)
      in res_statusCode (requests w 1) = JNum 201
       \<and> res_rawHeaders (requests w 1) = [(''x'', JStr ''y'')]
       \<and> responseBody (requests w 1) = JBuffer ''created''
       \<and> pending w = [TRespond 1 0] \<and> trace w = [])"
proof -
  let ?w = "exampleWorld exampleInterceptor"
  let ?bad = "JArr [JNum 200, JStr ''a'', JUndefined, JNull]"
  let ?good = "JArr [JNum 201, JStr ''created'', JObj [(''x'', JStr ''y'')]]"
  let ?w' = "run_task exampleHelpers (TFullReply 1 0 (Fulfilled ?bad)) ?w"
  have p: "pending ?w = []" "trace ?w = []"
    by (simp_all add: scenario_defs state_defs Let_def)
  have "\<not> (\<exists>xs. ?bad = JArr xs \<and> length xs \<le> 3 \<and> Number_isInteger (element xs 0))"
    by simp
  with full_reply_result_is_checked [of ?bad exampleHelpers 1 0 ?w]
  obtain msg where m: "?w' = ?w\<lparr>pending := pending ?w @ [TError 1 (Error msg)]\<rparr>"
    "run_task exampleHelpers (last (pending ?w')) (?w'\<lparr>pending := butlast (pending ?w')\<rparr>)
       = ?w\<lparr>trace := trace ?w @ [EmitError 1 (Error msg)]\<rparr>"
    unfolding Let_def by blast
  have "pending ?w'
      = [TError 1 (Error ''The array returned from the .reply callback contains too many values'')]"
    by (simp add: scenario_defs state_defs end_defs Let_def)
  with m(1) p have msg: "msg = ''The array returned from the .reply callback contains too many values''"
    by simp
  from m(1) p have 1: "?w' = ?w\<lparr>pending := [TError 1 (Error msg)]\<rparr>"
    by simp
  have "turn exampleHelpers ?w'
      = run_task exampleHelpers (last (pending ?w')) (?w'\<lparr>pending := butlast (pending ?w')\<rparr>)"
    unfolding 1 by (simp add: turn_def)
  with m(2) p have 2: "turn exampleHelpers ?w' = ?w\<lparr>trace := [EmitError 1 (Error msg)]\<rparr>"
    by simp
  have "?good = JArr [JNum 201, JStr ''created'', JObj [(''x'', JStr ''y'')]]
      \<and> length [JNum 201, JStr ''created'', JObj [(''x'', JStr ''y'')]] \<le> 3
      \<and> Number_isInteger (element [JNum 201, JStr ''created'', JObj [(''x'', JStr ''y'')]] 0)
      \<and> headersInputToRawArray exampleHelpers
           (element [JNum 201, JStr ''created'', JObj [(''x'', JStr ''y'')]] 2)
          = Inr [(''x'', JStr ''y'')]"
    by (simp add: element_def exampleHelpers_def)
  with full_reply_result_is_checked [of ?good exampleHelpers 1 0 ?w]
  have "run_task exampleHelpers (TFullReply 1 0 (Fulfilled ?good)) ?w
      = caught 1
          (continueWithResponseBody exampleHelpers 1 0
             (if element [JNum 201, JStr ''created'', JObj [(''x'', JStr ''y'')]] 1 = JUndefined
              then JStr [] else element [JNum 201, JStr ''created'', JObj [(''x'', JStr ''y'')]] 1)
             (updRequest 1
                (\<lambda>r. r\<lparr>res_statusCode := element [JNum 201, JStr ''created'', JObj [(''x'', JStr ''y'')]] 0,
                        res_rawHeaders := res_rawHeaders r @ [(''x'', JStr ''y'')]\<rparr>) ?w))"
    by blast
  then have 3: "let w = run_task exampleHelpers (TFullReply 1 0 (Fulfilled ?good)) ?w
      in res_statusCode (requests w 1) = JNum 201
       \<and> res_rawHeaders (requests w 1) = [(''x'', JStr ''y'')]
       \<and> responseBody (requests w 1) = JBuffer ''created''
       \<and> pending w = [TRespond 1 0] \<and> trace w = []"
    by (simp add: scenario_defs state_defs end_defs Let_def)
  from 1 2 3 show ?thesis unfolding msg by blast
qed

section \<open>\<^verbatim>\<open>req.write\<close>\<close>

lemmas write_unfold = req_write_def invoke_def callUser_def schedule_def emitError_def

lemma write_aborted:
  "aborted (requests w rid) \<Longrightarrow>
     req_write h rid buffer encoding cb w
       = (Inr (JBool False),
          w\<lparr>pending := pending w @ [TError rid (Error ''Request aborted''), TDrain rid]\<rparr>)"
  by (simp add: write_unfold)

lemma write_accepted:
  assumes "\<not> aborted (requests w rid)"
    and "\<not> truthy buffer \<or> Buffer_isBuffer buffer \<or> (\<exists>b. Buffer_from h buffer encoding = Inr b)"
    and "\<forall>f. callback = JFun f \<longrightarrow> callCallback h f = None"
  shows "\<exists>w'. req_write h rid buffer encoding (Arg callback) w = (Inr (JBool False), w')
           \<and> pending w' = pending w @ [TDrain rid]"
  using assms
  by (cases buffer; cases callback) (auto simp: write_unfold updRequest_def emit_def)

lemma write_refused:
  assumes "\<not> aborted (requests w rid)" and "truthy buffer" and "\<not> Buffer_isBuffer buffer"
    and "Buffer_from h buffer encoding = Inl e"
  shows "req_write h rid buffer encoding cb w = (Inl e, w)"
  using assms by (cases buffer) (simp_all add: write_unfold)

lemma write_callback_raises:
  assumes "\<not> aborted (requests w rid)"
    and "\<not> truthy buffer \<or> Buffer_isBuffer buffer \<or> (\<exists>b. Buffer_from h buffer encoding = Inr b)"
    and "callCallback h f = Some e"
  shows "\<exists>w'. req_write h rid buffer encoding (Arg (JFun f)) w = (Inl e, w')
           \<and> pending w' = pending w"
  using assms
  by (cases buffer) (auto simp: write_unfold updRequest_def emit_def)

lemma write_from_end:
  assumes "\<not> aborted (requests w rid)"
    and "\<not> truthy buffer \<or> Buffer_isBuffer buffer \<or> (\<exists>b. Buffer_from h buffer encoding = Inr b)"
    and "\<forall>f. callback = JFun f \<longrightarrow> callCallback h f = None"
  shows "\<exists>w0. pending w0 = pending w \<and> aborted (requests w0 rid) = aborted (requests w rid)
           \<and> req_write h rid buffer encoding (EndClosure callback) w
               = (case end_fn h rid w0 of
                    (Some e, w1) \<Rightarrow> (Inl e, w1)
                  | (None, w1) \<Rightarrow>
                      (Inr (JBool False),
                       schedule (TDrain rid)
                         (emit (Emit rid ''end'') (emit (Emit rid ''finish'') w1))))"
proof -
  define B where "B = (case buffer of JBuffer b \<Rightarrow> b
                       | _ \<Rightarrow> (case Buffer_from h buffer encoding of Inr b \<Rightarrow> b | Inl _ \<Rightarrow> []))"
  define W1 where "W1 = (if truthy buffer
      then updRequest rid (\<lambda>r. r\<lparr>requestBodyBuffers := requestBodyBuffers r @ [B]\<rparr>) w else w)"
  define W0 where "W0 = snd (callUser h callback W1)"
  have 1: "(if truthy buffer then
        (case (case buffer of JBuffer b \<Rightarrow> Inr b | _ \<Rightarrow> Buffer_from h buffer encoding) of
           Inl e \<Rightarrow> Inl e
         | Inr b \<Rightarrow>
             Inr (updRequest rid (\<lambda>r. r\<lparr>requestBodyBuffers := requestBodyBuffers r @ [b]\<rparr>) w))
      else Inr w) = Inr W1"
    using assms(2) by (cases buffer) (auto simp: W1_def B_def)
  have 2: "callUser h callback W1 = (None, W0)"
    using assms(3) by (cases callback) (simp_all add: W0_def callUser_def)
  have 3: "pending W0 = pending w" "aborted (requests W0 rid) = aborted (requests w rid)"
    by (cases callback; simp add: W0_def W1_def callUser_def emit_def updRequest_def)+
  have "req_write h rid buffer encoding (EndClosure callback) w
      = (case end_fn h rid W0 of
           (Some e, w1) \<Rightarrow> (Inl e, w1)
         | (None, w1) \<Rightarrow>
             (Inr (JBool False),
              schedule (TDrain rid) (emit (Emit rid ''end'') (emit (Emit rid ''finish'') w1))))"
    unfolding req_write_def 1 using assms(1) 2
    by (simp add: invoke_def split: prod.splits option.splits)
  with 3 show ?thesis by blast
qed

text \<open>
  Claim C10, as the code has it. A call of \<^verbatim>\<open>req.write\<close> with any chunk, encoding
  and callback:
  \<^item> on an aborted request, it returns \<^verbatim>\<open>false\<close> after scheduling the error and
    then the emission of \<^verbatim>\<open>'drain'\<close>;
  \<^item> on a request that is not aborted, when the chunk is falsy, a Buffer, or accepted
    by \<^verbatim>\<open>Buffer.from\<close>, and the callback, if it is a function, returns, it returns
    \<^verbatim>\<open>false\<close> and the only continuation it has scheduled is the emission of
    \<^verbatim>\<open>'drain'\<close>;
  \<^item> when \<^verbatim>\<open>Buffer.from\<close> refuses the chunk, its exception leaves the call, which
    has changed and scheduled nothing;
  \<^item> when the callback raises, its exception leaves the call, which has scheduled
    nothing;
  \<^item> the call that \<^verbatim>\<open>req.end\<close> makes passes its own closure, which runs
    \<^verbatim>\<open>end\<close> after the callback: that call returns \<^verbatim>\<open>false\<close> with the drain
    scheduled last when \<^verbatim>\<open>end\<close> returns, and is left by the exception of
    \<^verbatim>\<open>end\<close> otherwise;
  \<^item> the continuation that is scheduled for the drain emits \<^verbatim>\<open>'drain'\<close> on the
    request when it runs, and schedules nothing.
\<close>

theorem write_returns_false:
  "(aborted (requests w rid) \<longrightarrow>
      req_write h rid buffer encoding cb w
        = (Inr (JBool False),
           w\<lparr>pending := pending w @ [TError rid (Error ''Request aborted''), TDrain rid]\<rparr>))
   \<and> (\<not> aborted (requests w rid)
        \<and> (\<not> truthy buffer \<or> Buffer_isBuffer buffer \<or> (\<exists>b. Buffer_from h buffer encoding = Inr b))
        \<and> (\<forall>f. callback = JFun f \<longrightarrow> callCallback h f = None) \<longrightarrow>
        (\<exists>w'. req_write h rid buffer encoding (Arg callback) w = (Inr (JBool False), w')
              \<and> pending w' = pending w @ [TDrain rid]))
   \<and> (\<forall>e. \<not> aborted (requests w rid) \<and> truthy buffer \<and> \<not> Buffer_isBuffer buffer
          \<and> Buffer_from h buffer encoding = Inl e \<longrightarrow>
        req_write h rid buffer encoding cb w = (Inl e, w))
   \<and> (\<forall>f e. \<not> aborted (requests w rid)
          \<and> (\<not> truthy buffer \<or> Buffer_isBuffer buffer \<or> (\<exists>b. Buffer_from h buffer encoding = Inr b))
          \<and> callback = JFun f \<and> callCallback h f = Some e \<longrightarrow>
        (\<exists>w'. req_write h rid buffer encoding (Arg callback) w = (Inl e, w')
              \<and> pending w' = pending w))
   \<and> (\<not> aborted (requests w rid)
        \<and> (\<not> truthy buffer \<or> Buffer_isBuffer buffer \<or> (\<exists>b. Buffer_from h buffer encoding = Inr b))
        \<and> (\<forall>f. callback = JFun f \<longrightarrow> callCallback h f = None) \<longrightarrow>
        (\<exists>w0. pending w0 = pending w \<and> aborted (requests w0 rid) = aborted (requests w rid)
           \<and> req_write h rid buffer encoding (EndClosure callback) w
               = (case end_fn h rid w0 of
                    (Some e, w1) \<Rightarrow> (Inl e, w1)
                  | (None, w1) \<Rightarrow>
                      (Inr (JBool False),
                       schedule (TDrain rid)
                         (emit (Emit rid ''end'') (emit (Emit rid ''finish'') w1))))))
   \<and> (\<forall>v. trace (run_task h (TDrain rid) v) = trace v @ [Emit rid ''drain'']
          \<and> pending (run_task h (TDrain rid) v) = pending v)"
proof (intro conjI)
  show "aborted (requests w rid) \<longrightarrow>
      req_write h rid buffer encoding cb w
        = (Inr (JBool False),
           w\<lparr>pending := pending w @ [TError rid (Error ''Request aborted''), TDrain rid]\<rparr>)"
    using write_aborted [of w rid h buffer encoding cb] by blast
next
  show "\<not> aborted (requests w rid)
        \<and> (\<not> truthy buffer \<or> Buffer_isBuffer buffer \<or> (\<exists>b. Buffer_from h buffer encoding = Inr b))
        \<and> (\<forall>f. callback = JFun f \<longrightarrow> callCallback h f = None) \<longrightarrow>
        (\<exists>w'. req_write h rid buffer encoding (Arg callback) w = (Inr (JBool False), w')
              \<and> pending w' = pending w @ [TDrain rid])"
    using write_accepted [of w rid buffer h encoding callback] by blast
next
  show "\<forall>e. \<not> aborted (requests w rid) \<and> truthy buffer \<and> \<not> Buffer_isBuffer buffer
          \<and> Buffer_from h buffer encoding = Inl e \<longrightarrow>
        req_write h rid buffer encoding cb w = (Inl e, w)"
    using write_refused [of w rid buffer h encoding _ cb] by blast
next
  show "\<forall>f e. \<not> aborted (requests w rid)
          \<and> (\<not> truthy buffer \<or> Buffer_isBuffer buffer \<or> (\<exists>b. Buffer_from h buffer encoding = Inr b))
          \<and> callback = JFun f \<and> callCallback h f = Some e \<longrightarrow>
        (\<exists>w'. req_write h rid buffer encoding (Arg callback) w = (Inl e, w')
              \<and> pending w' = pending w)"
    using write_callback_raises [of w rid buffer h encoding] by blast
next
  show "\<not> aborted (requests w rid)
        \<and> (\<not> truthy buffer \<or> Buffer_isBuffer buffer \<or> (\<exists>b. Buffer_from h buffer encoding = Inr b))
        \<and> (\<forall>f. callback = JFun f \<longrightarrow> callCallback h f = None) \<longrightarrow>
        (\<exists>w0. pending w0 = pending w \<and> aborted (requests w0 rid) = aborted (requests w rid)
           \<and> req_write h rid buffer encoding (EndClosure callback) w
               = (case end_fn h rid w0 of
                    (Some e, w1) \<Rightarrow> (Inl e, w1)
                  | (None, w1) \<Rightarrow>
                      (Inr (JBool False),
                       schedule (TDrain rid)
                         (emit (Emit rid ''end'') (emit (Emit rid ''finish'') w1)))))"
    using write_from_end [of w rid buffer h encoding callback] by blast
next
  show "\<forall>v. trace (run_task h (TDrain rid) v) = trace v @ [Emit rid ''drain'']
          \<and> pending (run_task h (TDrain rid) v) = pending v"
    by (simp add: emit_def)
qed

text \<open>In the scenario: writing \<^verbatim>\<open>"abc"\<close> with a callback buffers the chunk, calls the
  callback, returns \<^verbatim>\<open>false\<close> and schedules the drain, which the next turn emits;
  the same call on the request
  once it is aborted buffers nothing and still returns \<^verbatim>\<open>false\<close>; writing
  \<^verbatim>\<open>true\<close> is left by the exception of \<^verbatim>\<open>Buffer.from\<close>, and writing
  \<^verbatim>\<open>"abc"\<close> with a callback that raises by the exception of the callback, both
  with nothing scheduled.\<close>

theorem write_returns_false_witness:
  "req_write exampleHelpers 1 (JStr ''abc'') JUndefined (Arg (JFun 7))
     (exampleWorld exampleInterceptor)
   = (Inr (JBool False),
      (updRequest 1 (\<lambda>r. r\<lparr>requestBodyBuffers := [''abc'']\<rparr>) (exampleWorld exampleInterceptor))
        \<lparr>pending := [TDrain 1], trace := [Callback 7]\<rparr>)
   \<and> trace (turn exampleHelpers
               (snd (req_write exampleHelpers 1 (JStr ''abc'') JUndefined (Arg (JFun 7))
                       (exampleWorld exampleInterceptor))))
     = [Callback 7, Emit 1 ''drain'']
   \<and> req_write exampleHelpers 1 (JStr ''abc'') JUndefined (Arg (JFun 7))
       (updRequest 1 (\<lambda>r. r\<lparr>aborted := True\<rparr>) (exampleWorld exampleInterceptor))
     = (Inr (JBool False),
        (updRequest 1 (\<lambda>r. r\<lparr>aborted := True\<rparr>) (exampleWorld exampleInterceptor))
          \<lparr>pending := [TError 1 (Error ''Request aborted''), TDrain 1]\<rparr>)
   \<and> req_write exampleHelpers 1 (JBool True) JUndefined (Arg (JFun 7))
       (exampleWorld exampleInterceptor)
     = (Inl (Thrown (JStr ''TypeError'')), exampleWorld exampleInterceptor)
   \<and> fst (req_write (exampleHelpers\<lparr>callCallback := \<lambda>f. Some (Thrown (JStr ''boom''))\<rparr>) 1
             (JStr ''abc'') JUndefined (Arg (JFun 7)) (exampleWorld exampleInterceptor))
     = Inl (Thrown (JStr ''boom''))
   \<and> pending (snd (req_write (exampleHelpers\<lparr>callCallback := \<lambda>f. Some (Thrown (JStr ''boom''))\<rparr>)
                     1 (JStr ''abc'') JUndefined (Arg (JFun 7)) (exampleWorld exampleInterceptor)))
     = []"
proof -
  let ?w = "exampleWorld exampleInterceptor"
  let ?a = "updRequest 1 (\<lambda>r. r\<lparr>aborted := True\<rparr>) ?w"
  let ?h = "exampleHelpers\<lparr>callCallback := \<lambda>f. Some (Thrown (JStr ''boom''))\<rparr>"
  have na: "\<not> aborted (requests ?w 1)" and p: "pending ?w = []"
    by (simp_all add: scenario_defs state_defs Let_def)
  have ok: "Buffer_from exampleHelpers (JStr ''abc'') JUndefined = Inr ''abc''"
    "Buffer_from ?h (JStr ''abc'') JUndefined = Inr ''abc''"
    by (simp_all add: exampleHelpers_def)
  have cb: "\<forall>f. JFun 7 = JFun f \<longrightarrow> callCallback exampleHelpers f = None"
    by (simp add: exampleHelpers_def)
  from write_returns_false [of ?w 1 exampleHelpers "JStr ''abc''" JUndefined _ "JFun 7"] na ok(1) cb
  obtain w' where w': "req_write exampleHelpers 1 (JStr ''abc'') JUndefined (Arg (JFun 7)) ?w
      = (Inr (JBool False), w')"
    by blast
  have "snd (req_write exampleHelpers 1 (JStr ''abc'') JUndefined (Arg (JFun 7)) ?w)
      = (updRequest 1 (\<lambda>r. r\<lparr>requestBodyBuffers := [''abc'']\<rparr>) ?w)
          \<lparr>pending := [TDrain 1], trace := [Callback 7]\<rparr>"
    by (simp add: scenario_defs state_defs request_defs Let_def)
  with w' have 1: "req_write exampleHelpers 1 (JStr ''abc'') JUndefined (Arg (JFun 7)) ?w
      = (Inr (JBool False),
         (updRequest 1 (\<lambda>r. r\<lparr>requestBodyBuffers := [''abc'']\<rparr>) ?w)
           \<lparr>pending := [TDrain 1], trace := [Callback 7]\<rparr>)"
    by simp
  from write_returns_false [of ?w 1 exampleHelpers "JStr ''abc''" JUndefined _ "JFun 7"]
  have dr: "trace (run_task exampleHelpers (TDrain 1) v) = trace v @ [Emit 1 ''drain'']" for v
    by blast
  have 5: "trace (turn exampleHelpers
        (snd (req_write exampleHelpers 1 (JStr ''abc'') JUndefined (Arg (JFun 7)) ?w)))
      = [Callback 7, Emit 1 ''drain'']"
    unfolding 1 by (simp add: turn_def dr [unfolded One_nat_def] del: run_task.simps)
  have ab: "aborted (requests ?a 1)" and pa: "pending ?a = []"
    by (simp_all add: scenario_defs state_defs Let_def)
  from write_returns_false [of ?a 1 exampleHelpers "JStr ''abc''" JUndefined "Arg (JFun 7)"] ab
  have "req_write exampleHelpers 1 (JStr ''abc'') JUndefined (Arg (JFun 7)) ?a
      = (Inr (JBool False),
         ?a\<lparr>pending := pending ?a @ [TError 1 (Error ''Request aborted''), TDrain 1]\<rparr>)"
    by blast
  with pa have 2: "req_write exampleHelpers 1 (JStr ''abc'') JUndefined (Arg (JFun 7)) ?a
      = (Inr (JBool False), ?a\<lparr>pending := [TError 1 (Error ''Request aborted''), TDrain 1]\<rparr>)"
    by simp
  have no: "truthy (JBool True)" "\<not> Buffer_isBuffer (JBool True)"
    "Buffer_from exampleHelpers (JBool True) JUndefined = Inl (Thrown (JStr ''TypeError''))"
    by (simp_all add: exampleHelpers_def)
  from write_returns_false [of ?w 1 exampleHelpers "JBool True" JUndefined "Arg (JFun 7)"] na no
  have 3: "req_write exampleHelpers 1 (JBool True) JUndefined (Arg (JFun 7)) ?w
      = (Inl (Thrown (JStr ''TypeError'')), ?w)"
    by blast
  have boom: "callCallback ?h 7 = Some (Thrown (JStr ''boom''))" by simp
  from write_returns_false [of ?w 1 ?h "JStr ''abc''" JUndefined _ "JFun 7"] na ok(2) boom
  obtain w'' where "req_write ?h 1 (JStr ''abc'') JUndefined (Arg (JFun 7)) ?w
      = (Inl (Thrown (JStr ''boom'')), w'')" "pending w'' = pending ?w"
    by blast
  with p have 4: "fst (req_write ?h 1 (JStr ''abc'') JUndefined (Arg (JFun 7)) ?w)
      = Inl (Thrown (JStr ''boom''))"
    "pending (snd (req_write ?h 1 (JStr ''abc'') JUndefined (Arg (JFun 7)) ?w)) = []"
    by simp_all
  from 1 2 3 4 5 show ?thesis by blast
qed

text \<open>Claim C10, as it is stated, fails for a chunk that \<^verbatim>\<open>Buffer.from\<close> refuses:
  \<^verbatim>\<open>req.write(123)\<close> on a request that is not aborted does not return
  \<^verbatim>\<open>false\<close>. The exception leaves the call before the drain is scheduled, and
  nothing is pending afterwards.\<close>

theorem write_of_a_number_raises:
  "fst (req_write exampleHelpers 1 (JNum 123) JUndefined (Arg JUndefined)
          (exampleWorld exampleInterceptor))
     = Inl (Thrown (JStr ''TypeError''))
   \<and> pending (snd (req_write exampleHelpers 1 (JNum 123) JUndefined (Arg JUndefined)
                     (exampleWorld exampleInterceptor)))
     = []
   \<and> \<not> aborted (requests (exampleWorld exampleInterceptor) 1)"
  by (simp add: scenario_defs state_defs request_defs Let_def)

section \<open>What \<^verbatim>\<open>end\<close> leaves untouched before the search\<close>

lemma setHeader_host:
  "setHeader h rid ''host'' v w =
     updRequest rid (\<lambda>r. r\<lparr>reqHeaders := (reqHeaders r)(toLowerCase h ''host'' \<mapsto> v)\<rparr>) w"
  by (simp add: setHeader_def Let_def)

lemma updRequest_twice:
  "updRequest rid (\<lambda>r. r\<lparr>opts := o2, reqHeaders := h2\<rparr>)
     (updRequest rid (\<lambda>r. r\<lparr>opts := o1, reqHeaders := h1\<rparr>) w)
   = updRequest rid (\<lambda>r. r\<lparr>opts := o2, reqHeaders := h2\<rparr>) w"
  by (simp add: updRequest_def)

lemma setRequestHeaders_frame:
  "\<exists>o1 h1. setRequestHeaders h rid i w = updRequest rid (\<lambda>r. r\<lparr>opts := o1, reqHeaders := h1\<rparr>) w"
proof -
  have same: "w = updRequest rid (\<lambda>r. r\<lparr>opts := opts (requests w rid),
      reqHeaders := reqHeaders (requests w rid)\<rparr>) w"
    by (simp add: updRequest_def)
  have a: "\<And>k v. updRequest rid (\<lambda>r. r\<lparr>reqHeaders := (reqHeaders r)(k \<mapsto> v)\<rparr>) w
      = updRequest rid (\<lambda>r. r\<lparr>opts := opts (requests w rid),
           reqHeaders := (reqHeaders (requests w rid))(k \<mapsto> v)\<rparr>) w"
    by (simp add: updRequest_def)
  have b: "\<And>k v. updRequest rid (\<lambda>r. r\<lparr>reqHeaders := (reqHeaders r)(k \<mapsto> v)\<rparr>)
        (updRequest rid
           (\<lambda>r. r\<lparr>opts := (opts r)\<lparr>headers := (headers (opts r))(''host'' \<mapsto> v)\<rparr>\<rparr>) w)
      = updRequest rid (\<lambda>r. r\<lparr>opts := (opts (requests w rid))
             \<lparr>headers := (headers (opts (requests w rid)))(''host'' \<mapsto> v)\<rparr>,
           reqHeaders := (reqHeaders (requests w rid))(k \<mapsto> v)\<rparr>) w"
    by (simp add: updRequest_def)
  show ?thesis
    unfolding setRequestHeaders_def Let_def setHeader_host
    apply (simp split: option.splits add: a b)
    using same by blast
qed

lemma fold_setRequestHeaders_frame:
  "\<exists>o1 h1. foldl (\<lambda>w' iref. setRequestHeaders h rid (interceptorObjs w' iref) w') w xs
     = updRequest rid (\<lambda>r. r\<lparr>opts := o1, reqHeaders := h1\<rparr>) w"
proof (induction xs arbitrary: w)
  case Nil
  have "w = updRequest rid (\<lambda>r. r\<lparr>opts := opts (requests w rid),
      reqHeaders := reqHeaders (requests w rid)\<rparr>) w"
    by (simp add: updRequest_def)
  then show ?case by (simp, blast)
next
  case (Cons x xs)
  from setRequestHeaders_frame [of h rid "interceptorObjs w x" w]
  obtain o1 h1 where 1: "setRequestHeaders h rid (interceptorObjs w x) w
      = updRequest rid (\<lambda>r. r\<lparr>opts := o1, reqHeaders := h1\<rparr>) w" by blast
  from Cons.IH [of "setRequestHeaders h rid (interceptorObjs w x) w"]
  obtain o2 h2 where 2:
    "foldl (\<lambda>w' iref. setRequestHeaders h rid (interceptorObjs w' iref) w')
       (setRequestHeaders h rid (interceptorObjs w x) w) xs
     = updRequest rid (\<lambda>r. r\<lparr>opts := o2, reqHeaders := h2\<rparr>)
         (setRequestHeaders h rid (interceptorObjs w x) w)" by blast
  from 2 [unfolded 1]
  have "foldl (\<lambda>w' iref. setRequestHeaders h rid (interceptorObjs w' iref) w') w (x # xs)
      = updRequest rid (\<lambda>r. r\<lparr>opts := o2, reqHeaders := h2\<rparr>) w"
    by (simp add: 1 updRequest_twice)
  then show ?case by blast
qed

lemma prepareMatch_frame:
  "\<exists>o1 h1. prepareMatch h rid w
     = updRequest rid (\<lambda>r. r\<lparr>ended := True, opts := o1, reqHeaders := h1\<rparr>) w"
proof -
  let ?w2 = "updRequest rid
      (\<lambda>r. r\<lparr>opts := (opts r)\<lparr>path := reqPath r, headers := reqHeaders r,
                               protocol := Some (proto (opts r) @ '':'')\<rparr>\<rparr>)
      (updRequest rid (\<lambda>r. r\<lparr>ended := True\<rparr>) w)"
  from fold_setRequestHeaders_frame [of h rid ?w2 "arrays ?w2 (interceptors (requests ?w2 rid))"]
  obtain o1 h1 where
    "foldl (\<lambda>w' iref. setRequestHeaders h rid (interceptorObjs w' iref) w') ?w2
       (arrays ?w2 (interceptors (requests ?w2 rid)))
     = updRequest rid (\<lambda>r. r\<lparr>opts := o1, reqHeaders := h1\<rparr>) ?w2" by blast
  then have "prepareMatch h rid w
      = updRequest rid (\<lambda>r. r\<lparr>ended := True, opts := o1, reqHeaders := h1\<rparr>) w"
    by (simp add: prepareMatch_def Let_def updRequest_def)
  then show ?thesis by blast
qed

lemma prepareMatch_simps [simp]:
  "interceptorObjs (prepareMatch h rid w) = interceptorObjs w"
  "arrays (prepareMatch h rid w) = arrays w"
  "allInterceptors (prepareMatch h rid w) = allInterceptors w"
  "pending (prepareMatch h rid w) = pending w"
  "trace (prepareMatch h rid w) = trace w"
  "interceptors (requests (prepareMatch h rid w) r) = interceptors (requests w r)"
  "aborted (requests (prepareMatch h rid w) r) = aborted (requests w r)"
  "requestBodyBuffers (requests (prepareMatch h rid w) r) = requestBodyBuffers (requests w r)"
  "responseBuffers (requests (prepareMatch h rid w) r) = responseBuffers (requests w r)"
  using prepareMatch_frame [of h rid w] by (auto simp: updRequest_def split: if_splits)

lemma setRequestHeaders_simps [simp]:
  "interceptorObjs (setRequestHeaders h rid i w) = interceptorObjs w"
  "arrays (setRequestHeaders h rid i w) = arrays w"
  "allInterceptors (setRequestHeaders h rid i w) = allInterceptors w"
  "pending (setRequestHeaders h rid i w) = pending w"
  "trace (setRequestHeaders h rid i w) = trace w"
  "interceptors (requests (setRequestHeaders h rid i w) r) = interceptors (requests w r)"
  "aborted (requests (setRequestHeaders h rid i w) r) = aborted (requests w r)"
  "requestBodyBuffers (requests (setRequestHeaders h rid i w) r) = requestBodyBuffers (requests w r)"
  "responseBuffers (requests (setRequestHeaders h rid i w) r) = responseBuffers (requests w r)"
  using setRequestHeaders_frame [of h rid i w] by (auto simp: updRequest_def split: if_splits)

section \<open>Content-encoded replies\<close>

text \<open>
  Claim C7, as the code has it. Let \<^verbatim>\<open>end\<close> find the interceptor \<open>iref\<close> for a
  request, and let the interceptor carry a static reply (no error to raise, no reply
  function) whose headers are content-encoded, whose body is not a stream, and a body
  delay. Then \<^verbatim>\<open>end\<close> returns having scheduled one continuation, the emission of
  the error on the request, and having emitted nothing but the \<^verbatim>\<open>'request'\<close> event
  of the scope: no response is emitted and none is scheduled. When the continuation
  runs, the error that reports the unsupported combination is emitted on the request,
  and nothing else. The interceptor is not consumed.
\<close>

theorem encoded_reply_with_delay_is_an_error:
  assumes "w3 = prepareMatch h rid w"
    and "array_find (interceptorMatches h rid w3) (arrays w3 (interceptors (requests w3 rid)))
           = Some iref"
    and "errorMessage (interceptorObjs w iref) = JUndefined"
    and "replyFunction (interceptorObjs w iref) = None"
    and "fullReplyFunction (interceptorObjs w iref) = None"
    and "isContentEncoded h (i_headers (interceptorObjs w iref))"
    and "\<not> isStream (body (interceptorObjs w iref))"
    and "delayInMs (interceptorObjs w iref) \<noteq> 0"
  shows "\<exists>w'. end_fn h rid w = (None, w')
           \<and> pending w' = pending w @
               [TError rid
                  (Error ''Response delay of the body is currently not supported with content-encoded responses.'')]
           \<and> trace w' = trace w @ [ScopeRequest iref rid (requestBodyOf h (requests w3 rid))]
           \<and> arrays w' = arrays w
           \<and> counter (interceptorObjs w' iref) = counter (interceptorObjs w iref)
           \<and> interceptionCounter (interceptorObjs w' iref)
               = interceptionCounter (interceptorObjs w iref)
           \<and> trace (run_task h (last (pending w')) (w'\<lparr>pending := butlast (pending w')\<rparr>))
               = trace w @
                   [ScopeRequest iref rid (requestBodyOf h (requests w3 rid)),
                    EmitError rid
                      (Error ''Response delay of the body is currently not supported with content-encoded responses.'')]
           \<and> pending (run_task h (last (pending w')) (w'\<lparr>pending := butlast (pending w')\<rparr>))
               = pending w"
proof -
  have "end_fn h rid w =
      end_matched h rid iref (requestBodyOf h (requests w3 rid))
        (isUtf8Representable h (concat (requestBodyBuffers (requests w3 rid)))) w3"
    using assms(2) by (simp add: end_fn_def Let_def assms(1) [symmetric])
  moreover have "interceptorObjs w3 = interceptorObjs w" "arrays w3 = arrays w"
    "pending w3 = pending w" "trace w3 = trace w"
    by (simp_all add: assms(1))
  ultimately show ?thesis
    using assms(3-8)
    by (simp add: end_matched_def Let_def state_defs)
qed

text \<open>The scenario with the reply \<^verbatim>\<open>["1f8b", "0000"]\<close>, the header
  \<^verbatim>\<open>content-encoding: gzip\<close> and a body delay of 100 ms: after \<^verbatim>\<open>end\<close> and one
  turn, the trace holds the \<^verbatim>\<open>'request'\<close> event of the scope and the error.\<close>

theorem encoded_reply_with_delay_is_an_error_witness:
  "fst (end_fn exampleHelpers 1 (exampleWorld (encodedInterceptor\<lparr>delayInMs := 100\<rparr>))) = None
   \<and> pending (snd (end_fn exampleHelpers 1 (exampleWorld (encodedInterceptor\<lparr>delayInMs := 100\<rparr>))))
       = [TError 1
            (Error ''Response delay of the body is currently not supported with content-encoded responses.'')]
   \<and> trace (snd (end_fn exampleHelpers 1 (exampleWorld (encodedInterceptor\<lparr>delayInMs := 100\<rparr>))))
       = [ScopeRequest 0 1 []]
   \<and> arrays (snd (end_fn exampleHelpers 1 (exampleWorld (encodedInterceptor\<lparr>delayInMs := 100\<rparr>)))) 0
       = [0]
   \<and> trace (turn exampleHelpers
               (snd (end_fn exampleHelpers 1 (exampleWorld (encodedInterceptor\<lparr>delayInMs := 100\<rparr>)))))
       = [ScopeRequest 0 1 [],
          EmitError 1
            (Error ''Response delay of the body is currently not supported with content-encoded responses.'')]
   \<and> pending (turn exampleHelpers
                 (snd (end_fn exampleHelpers 1 (exampleWorld (encodedInterceptor\<lparr>delayInMs := 100\<rparr>)))))
       = []"
proof -
  let ?i = "encodedInterceptor\<lparr>delayInMs := 100\<rparr>"
  let ?w = "exampleWorld ?i"
  let ?E = "Error ''Response delay of the body is currently not supported with content-encoded responses.''"
  have m: "array_find (interceptorMatches exampleHelpers 1 (prepareMatch exampleHelpers 1 ?w))
      (arrays (prepareMatch exampleHelpers 1 ?w)
         (interceptors (requests (prepareMatch exampleHelpers 1 ?w) 1))) = Some 0"
    by (simp add: scenario_defs state_defs end_defs Let_def)
  have i: "errorMessage (interceptorObjs ?w 0) = JUndefined"
    "replyFunction (interceptorObjs ?w 0) = None"
    "fullReplyFunction (interceptorObjs ?w 0) = None"
    "isContentEncoded exampleHelpers (i_headers (interceptorObjs ?w 0))"
    "\<not> isStream (body (interceptorObjs ?w 0))"
    "delayInMs (interceptorObjs ?w 0) \<noteq> 0"
    by (simp_all add: scenario_defs state_defs Let_def)
  have s: "pending ?w = []" "trace ?w = []" "arrays ?w 0 = [0]"
    "requestBodyOf exampleHelpers (requests (prepareMatch exampleHelpers 1 ?w) 1) = []"
    by (simp_all add: scenario_defs state_defs requestBodyOf_def Let_def)
  from encoded_reply_with_delay_is_an_error [OF refl m i]
  obtain w' where w': "end_fn exampleHelpers 1 ?w = (None, w')"
    "pending w' = pending ?w @ [TError 1 ?E]"
    "trace w' = trace ?w
       @ [ScopeRequest 0 1 (requestBodyOf exampleHelpers (requests (prepareMatch exampleHelpers 1 ?w) 1))]"
    "arrays w' = arrays ?w"
    "trace (run_task exampleHelpers (last (pending w')) (w'\<lparr>pending := butlast (pending w')\<rparr>))
       = trace ?w
         @ [ScopeRequest 0 1 (requestBodyOf exampleHelpers (requests (prepareMatch exampleHelpers 1 ?w) 1)),
            EmitError 1 ?E]"
    "pending (run_task exampleHelpers (last (pending w')) (w'\<lparr>pending := butlast (pending w')\<rparr>))
       = pending ?w"
    by blast
  from w'(2) s(1) have t: "turn exampleHelpers w'
      = run_task exampleHelpers (last (pending w')) (w'\<lparr>pending := butlast (pending w')\<rparr>)"
    by (simp add: turn_def)
  from w' s show ?thesis unfolding t [symmetric] by simp
qed

text \<open>Claim C7, as it is stated, fails for a reply that is computed by a function: with
  the header \<^verbatim>\<open>content-encoding: gzip\<close> and a body delay of 100 ms, the reply
  function that returns \<^verbatim>\<open>"ok"\<close> is answered. \<^verbatim>\<open>end\<close> schedules the reaction to
  its promise; the reaction wraps the body in a delayed stream and schedules the
  response; the response is emitted; no error is scheduled or emitted, and nothing is
  left to run.\<close>

theorem encoded_function_reply_with_delay_responds:
  "pending (snd (end_fn exampleHelpers 1
                   (exampleWorld
                      ((functionInterceptor (JStr ''ok''))
                         \<lparr>i_headers := JObj [(''content-encoding'', JStr ''gzip'')],
                          delayInMs := 100\<rparr>))))
     = [TReply 1 0 (Fulfilled (JStr ''ok''))]
   \<and> trace (turns exampleHelpers 2
               (snd (end_fn exampleHelpers 1
                       (exampleWorld
                          ((functionInterceptor (JStr ''ok''))
                             \<lparr>i_headers := JObj [(''content-encoding'', JStr ''gzip'')],
                              delayInMs := 100\<rparr>)))))
     = [ScopeRequest 0 1 [], StreamPause (JDelayedBody 100 (JStr ''ok'')),
        Emit 1 ''response'', StreamResume (JDelayedBody 100 (JStr ''ok''))]
   \<and> pending (turns exampleHelpers 2
                 (snd (end_fn exampleHelpers 1
                         (exampleWorld
                            ((functionInterceptor (JStr ''ok''))
                               \<lparr>i_headers := JObj [(''content-encoding'', JStr ''gzip'')],
                                delayInMs := 100\<rparr>)))))
     = []
   \<and> isContentEncoded exampleHelpers
        (i_headers ((functionInterceptor (JStr ''ok''))
                      \<lparr>i_headers := JObj [(''content-encoding'', JStr ''gzip'')],
                       delayInMs := 100\<rparr>))"
  by (simp add: scenario_defs state_defs end_defs request_defs Let_def eval_nat_numeral)

section \<open>The chunks of a content-encoded reply\<close>



























section \<open>Bodies that are serialized as JSON\<close>





section \<open>Two requests in flight, and a request aborted in mid-stream\<close>

text \<open>
  Claim C1 does not hold of the code. The interceptor of the scenario is used once and
  replies through a function that returns \<^verbatim>\<open>"ok"\<close>. When \<^verbatim>\<open>req.end\<close> of request 1
  returns, the reaction to the promise of the function is pending and the interceptor is
  registered as before, with its counter at 1: the interceptor is consumed by the
  reaction, not by \<^verbatim>\<open>end\<close>. So \<^verbatim>\<open>req.end\<close> of request 2, called before the reaction
  runs, finds the same interceptor, and both requests are answered from it.
\<close>

theorem single_use_interceptor_matches_twice:
  "arrays (snd (req_end exampleHelpers 1 JUndefined JUndefined JUndefined
                  (exampleWorld (functionInterceptor (JStr ''ok''))))) 0 = [0]
   \<and> counter (interceptorObjs
                (snd (req_end exampleHelpers 1 JUndefined JUndefined JUndefined
                        (exampleWorld (functionInterceptor (JStr ''ok''))))) 0) = 1
   \<and> pending (snd (req_end exampleHelpers 1 JUndefined JUndefined JUndefined
                     (exampleWorld (functionInterceptor (JStr ''ok'')))))
       = [TReply 1 0 (Fulfilled (JStr ''ok'')), TDrain 1]
   \<and> trace (snd (req_end exampleHelpers 2 JUndefined JUndefined JUndefined
                   (snd (req_end exampleHelpers 1 JUndefined JUndefined JUndefined
                           (exampleWorld (functionInterceptor (JStr ''ok'')))))))
       = [ScopeRequest 0 1 [], Emit 1 ''finish'', Emit 1 ''end'',
          ScopeRequest 0 2 [], Emit 2 ''finish'', Emit 2 ''end'']
   \<and> pending (snd (req_end exampleHelpers 2 JUndefined JUndefined JUndefined
                     (snd (req_end exampleHelpers 1 JUndefined JUndefined JUndefined
                             (exampleWorld (functionInterceptor (JStr ''ok'')))))))
       = [TReply 1 0 (Fulfilled (JStr ''ok'')), TDrain 1,
          TReply 2 0 (Fulfilled (JStr ''ok'')), TDrain 2]
   \<and> filter (\<lambda>ev. ev = Emit 1 ''response'' \<or> ev = Emit 2 ''response'')
        (trace (turns exampleHelpers 10
                  (snd (req_end exampleHelpers 2 JUndefined JUndefined JUndefined
                          (snd (req_end exampleHelpers 1 JUndefined JUndefined JUndefined
                                  (exampleWorld (functionInterceptor (JStr ''ok'')))))))))
       = [Emit 1 ''response'', Emit 2 ''response'']
   \<and> interceptionCounter
        (interceptorObjs
           (turns exampleHelpers 10
              (snd (req_end exampleHelpers 2 JUndefined JUndefined JUndefined
                      (snd (req_end exampleHelpers 1 JUndefined JUndefined JUndefined
                              (exampleWorld (functionInterceptor (JStr ''ok''))))))))
           0) = 2"
  by (simp add: scenario_defs state_defs end_defs request_defs Let_def eval_nat_numeral)

text \<open>
  Claim C2 does not hold of the code. In the scenario with the chunks
  \<^verbatim>\<open>["1f8b", "0000"]\<close>, the request is aborted once the response and the first chunk
  have been emitted: \<^verbatim>\<open>req.abort\<close> emits its events and leaves the continuation
  \<^verbatim>\<open>emitChunk\<close> scheduled. \<^verbatim>\<open>emitChunk\<close>, unlike \<^verbatim>\<open>respond\<close> and \<^verbatim>\<open>_respond\<close>,
  does not test \<^verbatim>\<open>req.aborted\<close>: when it runs, it pushes the second chunk, after the
  \<^verbatim>\<open>'abort'\<close> event, and schedules itself again.
\<close>

theorem chunk_is_pushed_after_abort:
  "trace (snd (abort exampleHelpers 1
                 (turns exampleHelpers 3
                    (snd (req_end exampleHelpers 1 JUndefined JUndefined JUndefined
                            (exampleWorld encodedInterceptor))))))
     = [ScopeRequest 0 1 [], Emit 1 ''finish'', Emit 1 ''end'', Emit 1 ''response'',
        Emit 1 ''drain'', Push 1 (JBuffer (hexBytes ''1f8b'')),
        ResponseClose 1, SocketDestroy 1, Emit 1 ''abort'']
   \<and> pending (snd (abort exampleHelpers 1
                     (turns exampleHelpers 3
                        (snd (req_end exampleHelpers 1 JUndefined JUndefined JUndefined
                                (exampleWorld encodedInterceptor))))))
     = [TEmitChunk 1 0, TError 1 (CodedError ''socket hang up'' ''ECONNRESET'')]
   \<and> aborted (requests
                (snd (abort exampleHelpers 1
                        (turns exampleHelpers 3
                           (snd (req_end exampleHelpers 1 JUndefined JUndefined JUndefined
                                   (exampleWorld encodedInterceptor)))))) 1)
   \<and> trace (run_task exampleHelpers (TEmitChunk 1 0)
              (snd (abort exampleHelpers 1
                      (turns exampleHelpers 3
                         (snd (req_end exampleHelpers 1 JUndefined JUndefined JUndefined
                                 (exampleWorld encodedInterceptor)))))))
     = [ScopeRequest 0 1 [], Emit 1 ''finish'', Emit 1 ''end'', Emit 1 ''response'',
        Emit 1 ''drain'', Push 1 (JBuffer (hexBytes ''1f8b'')),
        ResponseClose 1, SocketDestroy 1, Emit 1 ''abort'',
        Push 1 (JBuffer (hexBytes ''0000''))]"
  by (simp add: scenario_defs state_defs end_defs request_defs Let_def eval_nat_numeral)

section \<open>Use counts\<close>

lemma registry_eq:
  "registry w = registry w' \<longleftrightarrow>
     (\<forall>x. counter (interceptorObjs w x) = counter (interceptorObjs w' x)
        \<and> interceptionCounter (interceptorObjs w x) = interceptionCounter (interceptorObjs w' x)
        \<and> basePath (interceptorObjs w x) = basePath (interceptorObjs w' x)
        \<and> shouldPersist (nock_scope (interceptorObjs w x))
            = shouldPersist (nock_scope (interceptorObjs w' x)))
     \<and> arrays w = arrays w' \<and> allInterceptors w = allInterceptors w'
     \<and> (\<forall>rid. interceptors (requests w rid) = interceptors (requests w' rid))"
  by (auto simp: registry_def fun_eq_iff)

lemma registry_simple [simp]:
  "registry (emit ev w) = registry w"
  "registry (schedule t w) = registry w"
  "registry (emitError rid e w) = registry w"
  "registry (w\<lparr>pending := p\<rparr>) = registry w"
  "registry (setRequestHeaders h rid i w) = registry w"
  "registry (prepareMatch h rid w) = registry w"
  by (simp_all add: registry_eq) (simp_all add: state_defs)

lemma registry_updRequest:
  "(\<And>r. interceptors (f r) = interceptors r) \<Longrightarrow> registry (updRequest rid f w) = registry w"
  by (simp add: registry_eq updRequest_def)

lemma registry_i_req [simp]:
  "registry (updInterceptor iref (\<lambda>i. i\<lparr>i_req := v\<rparr>) w) = registry w"
  by (simp add: registry_eq updInterceptor_def)

lemma registry_consume:
  "registry w = registry w' \<Longrightarrow> registry (consume iref w) = registry (consume iref w')"
  unfolding registry_eq
  by (simp add: consume_def remove_def updInterceptor_def Let_def split: option.splits)

lemma state_simps [simp]:
  "pending (updRequest rid f w) = pending w"
  "pending (updInterceptor iref g w) = pending w"
  "pending (emit ev w) = pending w"
  "pending (schedule t w) = pending w @ [t]"
  "pending (emitError rid e w) = pending w @ [TError rid e]"
  "requests (updInterceptor iref g w) = requests w"
  "requests (emit ev w) = requests w"
  "requests (schedule t w) = requests w"
  "requests (emitError rid e w) = requests w"
  by (simp_all add: state_defs)

lemma registry_transformBody:
  "transformBody h rid i b w = Inr (rb, w1) \<Longrightarrow> registry w1 = registry w \<and> pending w1 = pending w"
  by (auto simp: transformBody_def Let_def registry_updRequest split: if_splits sum.splits)

text \<open>\<^verbatim>\<open>continueWithResponseBody\<close> consumes the interceptor or raises before it does,
  and schedules no reaction.\<close>

lemma continueWithResponseBody_effect:
  "\<exists>ts. pending (snd (continueWithResponseBody h rid iref b w)) = pending w @ ts
        \<and> (\<forall>t\<in>set ts. \<not> anyReaction t)
        \<and> (registry (snd (continueWithResponseBody h rid iref b w)) = registry w
           \<or> registry (snd (continueWithResponseBody h rid iref b w)) = registry (consume iref w))"
proof (cases "transformBody h rid (interceptorObjs w iref) b w")
  case (Inl e)
  then have "pending (snd (continueWithResponseBody h rid iref b w)) = pending w @ []
      \<and> (\<forall>t\<in>set []. \<not> anyReaction t)
      \<and> registry (snd (continueWithResponseBody h rid iref b w)) = registry w"
    by (simp add: continueWithResponseBody_def)
  then show ?thesis by blast
next
  case (Inr p)
  obtain rb w1 where p: "p = (rb, w1)" by (cases p)
  let ?w2 = "consume iref (updRequest rid (\<lambda>r. r\<lparr>responseBody := rb\<rparr>) w1)"
  from registry_transformBody [OF Inr [unfolded p]]
  have 1: "registry w1 = registry w" "pending w1 = pending w" by simp_all
  have 2: "registry ?w2 = registry (consume iref w)"
    by (rule registry_consume) (simp add: registry_updRequest 1)
  have 3: "pending ?w2 = pending w" by (simp add: 1)
  show ?thesis
  proof (cases "aborted (requests ?w2 rid)")
    case True
    with Inr p have "snd (continueWithResponseBody h rid iref b w) = ?w2"
      by (simp add: continueWithResponseBody_def Let_def)
    with 2 3 have "pending (snd (continueWithResponseBody h rid iref b w)) = pending w @ []
        \<and> (\<forall>t\<in>set []. \<not> anyReaction t)
        \<and> registry (snd (continueWithResponseBody h rid iref b w)) = registry (consume iref w)"
      by simp
    then show ?thesis by blast
  next
    case False
    with Inr p obtain f where f: "snd (continueWithResponseBody h rid iref b w)
        = schedule (TRespond rid iref) (updRequest rid f ?w2)"
      "\<And>r. interceptors (f r) = interceptors r"
      by (simp add: continueWithResponseBody_def Let_def)
    with 2 3 have "pending (snd (continueWithResponseBody h rid iref b w))
          = pending w @ [TRespond rid iref]
        \<and> (\<forall>t\<in>set [TRespond rid iref]. \<not> anyReaction t)
        \<and> registry (snd (continueWithResponseBody h rid iref b w)) = registry (consume iref w)"
      by (simp add: registry_updRequest anyReaction_def)
    then show ?thesis by blast
  qed
qed

lemma callReplyFunction_effect:
  "registry (snd (callReplyFunction h rid fn mk b w)) = registry w
   \<and> (pending (snd (callReplyFunction h rid fn mk b w)) = pending w
      \<or> (\<exists>s. pending (snd (callReplyFunction h rid fn mk b w)) = pending w @ [mk s]))"
  by (auto simp: callReplyFunction_def Let_def split: sum.splits fn_outcome.splits)

lemma endEffect_unchanged:
  "pending w1 = pending w @ ts \<Longrightarrow> \<forall>t\<in>set ts. \<not> anyReaction t \<Longrightarrow> registry w1 = registry w \<Longrightarrow>
     endEffect rid iref w w1"
  unfolding endEffect_def by blast

lemma endEffect_continue:
  assumes "registry w5 = registry w" and "pending w5 = pending w"
  shows "endEffect rid iref w (snd (continueWithResponseBody h rid iref b w5))"
proof -
  from continueWithResponseBody_effect [of h rid iref b w5]
  obtain ts where ts: "pending (snd (continueWithResponseBody h rid iref b w5)) = pending w5 @ ts"
    "\<forall>t\<in>set ts. \<not> anyReaction t"
    "registry (snd (continueWithResponseBody h rid iref b w5)) = registry w5
     \<or> registry (snd (continueWithResponseBody h rid iref b w5)) = registry (consume iref w5)"
    by blast
  from registry_consume [OF assms(1)] ts assms show ?thesis
    unfolding endEffect_def by auto
qed

lemma end_matched_effect: "endEffect rid iref w (snd (end_matched h rid iref rb bin w))"
proof -
  define w4 where "w4 = emit (ScopeRequest iref rid rb)
      (updRequest rid (\<lambda>r. r\<lparr>r_headers := reqHeaders r\<rparr>)
         (updInterceptor iref (\<lambda>i. i\<lparr>i_req := Some rid\<rparr>)
            (setRequestHeaders h rid (interceptorObjs w iref) w)))"
  define i where "i = interceptorObjs w4 iref"
  define w5 where "w5 = updRequest rid
      (\<lambda>r. r\<lparr>res_statusCode := statusCode i, res_rawHeaders := rawHeaders i\<rparr>) w4"
  have w4: "registry w4 = registry w" "pending w4 = pending w"
    by (simp_all add: w4_def registry_updRequest)
  have w5: "registry w5 = registry w" "pending w5 = pending w"
    by (simp_all add: w5_def w4 registry_updRequest)
  have unfold: "end_matched h rid iref rb bin w =
      (if errorMessage i \<noteq> JUndefined then
         (None, schedule (TErrorLater rid (getTotalDelay (interceptorObjs (consume iref w4) iref))
                  (if isObject (errorMessage i) then Thrown (errorMessage i)
                   else newError (errorMessage i))) (consume iref w4))
       else case replyFunction i of
              Some fn \<Rightarrow> callReplyFunction h rid fn (TReply rid iref) rb w5
            | None \<Rightarrow>
               (case fullReplyFunction i of
                  Some fn \<Rightarrow> callReplyFunction h rid fn (TFullReply rid iref) rb w5
                | None \<Rightarrow>
                   if isContentEncoded h (i_headers i) \<and> \<not> isStream (body i) then
                     (if delayInMs i \<noteq> 0 then
                        (None,
                         emitError rid
                           (Error ''Response delay of the body is currently not supported with content-encoded responses.'')
                           w5)
                      else
                        (case hexBuffers h (case body i of JArr xs \<Rightarrow> xs | b \<Rightarrow> [b]) of
                           Inl e \<Rightarrow> (Some e, w5)
                         | Inr bufs \<Rightarrow>
                             continueWithResponseBody h rid iref JUndefined
                               (updRequest rid (\<lambda>r. r\<lparr>responseBuffers := Some bufs\<rparr>) w5)))
                   else if bin \<and> js_typeof (body i) = ''string'' then
                     (case Buffer_from h (body i) (JStr ''hex'') of
                        Inl e \<Rightarrow> (Some e, w5)
                      | Inr b \<Rightarrow>
                          if body i \<noteq> JStr [] \<and> length b = 0 then
                            (case Buffer_from h (body i) (JStr ''utf8'') of
                               Inl e \<Rightarrow> (Some e, w5)
                             | Inr b' \<Rightarrow> continueWithResponseBody h rid iref (JBuffer b') w5)
                          else continueWithResponseBody h rid iref (JBuffer b) w5)
                   else continueWithResponseBody h rid iref (body i) w5))"
    unfolding end_matched_def Let_def w4_def i_def w5_def by (rule refl)
  have same: "endEffect rid iref w w5"
    by (rule endEffect_unchanged [of _ _ "[]"]) (simp_all add: w5)
  have err: "endEffect rid iref w (emitError rid e w5)" for e
    by (rule endEffect_unchanged [of _ _ "[TError rid e]"]) (simp_all add: w5 anyReaction_def)
  have cont: "endEffect rid iref w (snd (continueWithResponseBody h rid iref b w5))" for b
    by (rule endEffect_continue [OF w5])
  have cont': "endEffect rid iref w
      (snd (continueWithResponseBody h rid iref b
              (updRequest rid (\<lambda>r. r\<lparr>responseBuffers := Some bufs\<rparr>) w5)))" for b bufs
    by (rule endEffect_continue) (simp_all add: w5 registry_updRequest)
  have call1: "endEffect rid iref w (snd (callReplyFunction h rid fn (TReply rid iref) rb w5))" for fn
    using callReplyFunction_effect [of h rid fn "TReply rid iref" rb w5] w5
    unfolding endEffect_def
    by (metis append_Nil2 empty_iff list.set(1))
  have call2: "endEffect rid iref w (snd (callReplyFunction h rid fn (TFullReply rid iref) rb w5))"
    for fn
    using callReplyFunction_effect [of h rid fn "TFullReply rid iref" rb w5] w5
    unfolding endEffect_def
    by (metis append_Nil2 empty_iff list.set(1))
  have cons: "endEffect rid iref w (schedule (TErrorLater rid d e) (consume iref w4))" for d e
  proof -
    have "registry (consume iref w4) = registry (consume iref w)"
      by (rule registry_consume) (rule w4)
    then have "pending (schedule (TErrorLater rid d e) (consume iref w4))
          = pending w @ [TErrorLater rid d e]
        \<and> (\<forall>t\<in>set [TErrorLater rid d e]. \<not> anyReaction t)
        \<and> registry (schedule (TErrorLater rid d e) (consume iref w4)) = registry (consume iref w)"
      by (simp add: w4 anyReaction_def)
    then show ?thesis unfolding endEffect_def by blast
  qed
  show ?thesis
    unfolding unfold
    by (simp add: same err cont cont' call1 call2 cons split: option.splits sum.splits)
qed

lemma endEffect_cong:
  "pending w = pending v \<Longrightarrow> registry w = registry v \<Longrightarrow>
     endEffect rid iref w w1 = endEffect rid iref v w1"
  using registry_consume [of w v iref] by (simp add: endEffect_def)

lemma end_noMatch_effect:
  "\<exists>ts. pending (end_noMatch h rid rb buf cands w) = pending w @ ts
        \<and> (\<forall>t\<in>set ts. \<not> anyReaction t)
        \<and> registry (end_noMatch h rid rb buf cands w) = registry w"
proof (cases "list_ex (\<lambda>iref. matchHostName (interceptorObjs (emit (NoMatch rid) w) iref)
                                  (opts (requests (emit (NoMatch rid) w) rid))
                              \<and> allowUnmocked (interceptorObjs (emit (NoMatch rid) w) iref)) cands
              \<and> isClientRequest (requests (emit (NoMatch rid) w) rid)")
  case True
  then have "pending (end_noMatch h rid rb buf cands w) = pending w @ []
      \<and> (\<forall>t\<in>set []. \<not> anyReaction t)
      \<and> registry (end_noMatch h rid rb buf cands w) = registry w"
    by (simp add: end_noMatch_def Let_def)
  then show ?thesis by blast
next
  case False
  then obtain e where "end_noMatch h rid rb buf cands w = emitError rid e (emit (NoMatch rid) w)"
    by (auto simp: end_noMatch_def Let_def)
  then have "pending (end_noMatch h rid rb buf cands w) = pending w @ [TError rid e]
      \<and> (\<forall>t\<in>set [TError rid e]. \<not> anyReaction t)
      \<and> registry (end_noMatch h rid rb buf cands w) = registry w"
    by (simp add: anyReaction_def)
  then show ?thesis by blast
qed

lemma end_fn_effect:
  "(\<exists>iref\<in>set (arrays w (interceptors (requests w rid))).
       endEffect rid iref w (snd (end_fn h rid w)))
   \<or> (\<exists>ts. pending (snd (end_fn h rid w)) = pending w @ ts
          \<and> (\<forall>t\<in>set ts. \<not> anyReaction t)
          \<and> registry (snd (end_fn h rid w)) = registry w)"
proof -
  let ?w3 = "prepareMatch h rid w"
  let ?cands = "arrays ?w3 (interceptors (requests ?w3 rid))"
  have c: "?cands = arrays w (interceptors (requests w rid))" by simp
  show ?thesis
  proof (cases "array_find (interceptorMatches h rid ?w3) ?cands")
    case None
    then have "snd (end_fn h rid w)
        = end_noMatch h rid (requestBodyOf h (requests ?w3 rid))
            (concat (requestBodyBuffers (requests ?w3 rid))) ?cands ?w3"
      by (simp add: end_fn_def Let_def)
    with end_noMatch_effect [of h rid "requestBodyOf h (requests ?w3 rid)"
        "concat (requestBodyBuffers (requests ?w3 rid))" ?cands ?w3]
    show ?thesis by simp
  next
    case (Some iref)
    from array_find_Some [OF Some] have "iref \<in> set ?cands" by auto
    then have m: "iref \<in> set (arrays w (interceptors (requests w rid)))" by simp
    from Some have "snd (end_fn h rid w)
        = snd (end_matched h rid iref (requestBodyOf h (requests ?w3 rid))
                 (isUtf8Representable h (concat (requestBodyBuffers (requests ?w3 rid)))) ?w3)"
      by (simp add: end_fn_def Let_def)
    with end_matched_effect [of rid iref ?w3 h]
    have "endEffect rid iref ?w3 (snd (end_fn h rid w))" by simp
    then have "endEffect rid iref w (snd (end_fn h rid w))"
      using endEffect_cong [of ?w3 w rid iref] by simp
    with m show ?thesis by blast
  qed
qed

lemma parseFullReplyResult_interceptors:
  "interceptors (snd (parseFullReplyResult h r v)) = interceptors r"
  by (cases v) (auto simp: parseFullReplyResult_def Let_def split: sum.splits)

lemma caught_effect:
  assumes "\<exists>ts. pending (snd res) = pending v @ ts \<and> (\<forall>t\<in>set ts. \<not> anyReaction t)
             \<and> (registry (snd res) = registry v \<or> registry (snd res) = registry (consume iref v))"
  shows "\<exists>ts. pending (caught rid res) = pending v @ ts \<and> (\<forall>t\<in>set ts. \<not> anyReaction t)
             \<and> (registry (caught rid res) = registry v
                \<or> registry (caught rid res) = registry (consume iref v))"
proof -
  from assms obtain ts where ts: "pending (snd res) = pending v @ ts"
    "\<forall>t\<in>set ts. \<not> anyReaction t"
    "registry (snd res) = registry v \<or> registry (snd res) = registry (consume iref v)"
    by blast
  obtain r1 w1 where res: "res = (r1, w1)" by (cases res)
  show ?thesis
  proof (cases r1)
    case None
    with res ts show ?thesis by (auto simp: caught_def)
  next
    case (Some e)
    with res ts have "pending (caught rid res) = pending v @ (ts @ [TError rid e])
        \<and> (\<forall>t\<in>set (ts @ [TError rid e]). \<not> anyReaction t)
        \<and> (registry (caught rid res) = registry v
           \<or> registry (caught rid res) = registry (consume iref v))"
      by (auto simp: caught_def anyReaction_def)
    then show ?thesis by blast
  qed
qed

text \<open>The reaction to the promise of a reply function consumes its interceptor or
  nothing, and schedules no further reaction.\<close>

lemma reaction_effect:
  assumes "t = TReply rid iref s \<or> t = TFullReply rid iref s"
  shows "\<exists>ts. pending (run_task h t v) = pending v @ ts \<and> (\<forall>t\<in>set ts. \<not> anyReaction t)
             \<and> (registry (run_task h t v) = registry v
                \<or> registry (run_task h t v) = registry (consume iref v))"
proof (cases s)
  case (Rejected e)
  with assms have "pending (run_task h t v) = pending v @ [TError rid e]
      \<and> (\<forall>t\<in>set [TError rid e]. \<not> anyReaction t) \<and> registry (run_task h t v) = registry v"
    by (auto simp: anyReaction_def)
  then show ?thesis by blast
next
  case (Fulfilled x)
  show ?thesis
  proof (cases "t = TReply rid iref s")
    case True
    with Fulfilled show ?thesis
      using caught_effect [OF continueWithResponseBody_effect [of h rid iref x v], of rid]
      by simp
  next
    case False
    with assms have t: "t = TFullReply rid iref s" by simp
    obtain r1 response1 where p: "parseFullReplyResult h (requests v rid) x = (r1, response1)"
      by (cases "parseFullReplyResult h (requests v rid) x")
    let ?v1 = "updRequest rid (\<lambda>_. response1) v"
    from parseFullReplyResult_interceptors [of h "requests v rid" x] p
    have i: "interceptors response1 = interceptors (requests v rid)" by simp
    have v1: "registry ?v1 = registry v" "pending ?v1 = pending v"
      using i by (simp_all add: registry_eq) (simp add: updRequest_def)
    show ?thesis
    proof (cases r1)
      case (Inl e)
      with t Fulfilled p v1
      have "pending (run_task h t v) = pending v @ [TError rid e]
          \<and> (\<forall>t\<in>set [TError rid e]. \<not> anyReaction t) \<and> registry (run_task h t v) = registry v"
        by (simp add: continueWithFullResponse_def caught_def anyReaction_def)
      then show ?thesis by blast
    next
      case (Inr b)
      from continueWithResponseBody_effect [of h rid iref b ?v1] v1 registry_consume [OF v1(1)]
      have "\<exists>ts. pending (snd (continueWithResponseBody h rid iref b ?v1)) = pending v @ ts
          \<and> (\<forall>t\<in>set ts. \<not> anyReaction t)
          \<and> (registry (snd (continueWithResponseBody h rid iref b ?v1)) = registry v
             \<or> registry (snd (continueWithResponseBody h rid iref b ?v1))
                 = registry (consume iref v))"
        by simp
      from caught_effect [OF this, of rid] t Fulfilled p Inr
      show ?thesis by (simp add: continueWithFullResponse_def)
    qed
  qed
qed

lemma array_find_last:
  "\<forall>x\<in>set xs. \<not> p x \<Longrightarrow> p t \<Longrightarrow> array_find p (xs @ [t]) = Some t"
  by (induction xs) auto

lemma not_anyReaction: "\<not> anyReaction t \<Longrightarrow> \<not> isReaction rid t"
  by (auto simp: anyReaction_def)

text \<open>A request handled on its own consumes one of the interceptors of its array, or
  none, and leaves no reaction behind.\<close>

lemma serve_effect:
  assumes "\<forall>t\<in>set (pending w). \<not> anyReaction t"
  shows "(\<forall>t\<in>set (pending (serve h rid w)). \<not> anyReaction t)
       \<and> (registry (serve h rid w) = registry w
          \<or> (\<exists>iref\<in>set (arrays w (interceptors (requests w rid))).
                registry (serve h rid w) = registry (consume iref w)))"
proof -
  let ?w1 = "snd (end_fn h rid w)"
  have quiet: "\<exists>ts. pending ?w1 = pending w @ ts \<and> (\<forall>t\<in>set ts. \<not> anyReaction t) \<Longrightarrow>
      serve h rid w = ?w1 \<and> (\<forall>t\<in>set (pending ?w1). \<not> anyReaction t)"
  proof -
    assume "\<exists>ts. pending ?w1 = pending w @ ts \<and> (\<forall>t\<in>set ts. \<not> anyReaction t)"
    then obtain ts where ts: "pending ?w1 = pending w @ ts" "\<forall>t\<in>set ts. \<not> anyReaction t"
      by blast
    with assms have n: "\<forall>t\<in>set (pending ?w1). \<not> anyReaction t" by auto
    then have "array_find (isReaction rid) (pending ?w1) = None"
      by (simp add: array_find_None not_anyReaction)
    then have "serve h rid w = ?w1" by (simp add: serve_def Let_def)
    with n show ?thesis by simp
  qed
  from end_fn_effect [of w rid h]
  consider (reaction) iref s where "iref \<in> set (arrays w (interceptors (requests w rid)))"
      "pending ?w1 = pending w @ [TReply rid iref s]
       \<or> pending ?w1 = pending w @ [TFullReply rid iref s]"
      "registry ?w1 = registry w"
    | (consumed) iref ts where "iref \<in> set (arrays w (interceptors (requests w rid)))"
      "pending ?w1 = pending w @ ts" "\<forall>t\<in>set ts. \<not> anyReaction t"
      "registry ?w1 = registry w \<or> registry ?w1 = registry (consume iref w)"
    | (unmatched) ts where "pending ?w1 = pending w @ ts" "\<forall>t\<in>set ts. \<not> anyReaction t"
      "registry ?w1 = registry w"
    unfolding endEffect_def by blast
  then show ?thesis
  proof cases
    case reaction
    define t where "t = (if pending ?w1 = pending w @ [TReply rid iref s]
        then TReply rid iref s else TFullReply rid iref s)"
    from reaction(2) have p: "pending ?w1 = pending w @ [t]" and
      t: "t = TReply rid iref s \<or> t = TFullReply rid iref s"
      by (auto simp: t_def)
    from t have r: "isReaction rid t" "anyReaction t" by (auto simp: anyReaction_def)
    from assms r(2) have notin: "t \<notin> set (pending w)" by blast
    from assms have "\<forall>x\<in>set (pending w). \<not> isReaction rid x" by (simp add: not_anyReaction)
    from array_find_last [OF this r(1)] p
    have f: "array_find (isReaction rid) (pending ?w1) = Some t" by simp
    from notin have rm: "remove1 t (pending w @ [t]) = pending w"
      by (simp add: remove1_append)
    let ?v = "?w1\<lparr>pending := pending w\<rparr>"
    from f p rm have sv: "serve h rid w = run_task h t ?v"
      by (simp add: serve_def Let_def)
    have v: "registry ?v = registry w" "pending ?v = pending w"
      using reaction(3) by simp_all
    from reaction_effect [OF t, of h ?v] obtain ts where
      ts: "pending (run_task h t ?v) = pending ?v @ ts" "\<forall>t\<in>set ts. \<not> anyReaction t"
      "registry (run_task h t ?v) = registry ?v
       \<or> registry (run_task h t ?v) = registry (consume iref ?v)"
      by blast
    from ts(1,2) v(2) assms have 1: "\<forall>t\<in>set (pending (serve h rid w)). \<not> anyReaction t"
      unfolding sv by auto
    from ts(3) v(1) registry_consume [OF v(1), of iref]
    have "registry (serve h rid w) = registry w
        \<or> registry (serve h rid w) = registry (consume iref w)"
      unfolding sv by simp
    with 1 reaction(1) show ?thesis by blast
  next
    case consumed
    from quiet consumed(2,3) have "serve h rid w = ?w1"
      "\<forall>t\<in>set (pending ?w1). \<not> anyReaction t" by blast+
    with consumed(1,4) show ?thesis by auto
  next
    case unmatched
    from quiet unmatched(1,2) have "serve h rid w = ?w1"
      "\<forall>t\<in>set (pending ?w1). \<not> anyReaction t" by blast+
    with unmatched(3) show ?thesis by simp
  qed
qed

lemma count_list_remove1:
  "count_list (remove1 x xs) r = (if x = r \<and> r \<in> set xs then count_list xs r - 1 else count_list xs r)"
  by (induction xs) auto

lemma consume_facts:
  "counter (interceptorObjs (consume x v) r)
     = (if x = r \<and> \<not> shouldPersist (nock_scope (interceptorObjs v r))
        then counter (interceptorObjs v r) - 1 else counter (interceptorObjs v r))"
  "interceptionCounter (interceptorObjs (consume x v) r)
     = (if x = r then interceptionCounter (interceptorObjs v r) + 1
        else interceptionCounter (interceptorObjs v r))"
  "basePath (interceptorObjs (consume x v) r) = basePath (interceptorObjs v r)"
  "shouldPersist (nock_scope (interceptorObjs (consume x v) r))
     = shouldPersist (nock_scope (interceptorObjs v r))"
  "allInterceptors (consume x v) = allInterceptors v"
  "arrays (consume x v) a
     = (if \<not> shouldPersist (nock_scope (interceptorObjs v x)) \<and> counter (interceptorObjs v x) - 1 \<le> 0
           \<and> (\<exists>e. allInterceptors v (basePath (interceptorObjs v x)) = Some e \<and> scopes e = a)
        then remove1 x (arrays v a) else arrays v a)"
  by (auto simp: consume_def remove_def updInterceptor_def Let_def split: option.splits)

text \<open>The account of one request, for the interceptor \<open>r\<close> registered under its base
  path in the array that the request searches.\<close>

lemma serve_account:
  assumes quiet: "\<forall>t\<in>set (pending v). \<not> anyReaction t"
    and e: "allInterceptors v (basePath (interceptorObjs v r)) = Some e"
    and a: "interceptors (requests v rid) = scopes e"
  shows "(\<forall>t\<in>set (pending (serve h rid v)). \<not> anyReaction t)
       \<and> allInterceptors (serve h rid v) = allInterceptors v
       \<and> basePath (interceptorObjs (serve h rid v) r) = basePath (interceptorObjs v r)
       \<and> shouldPersist (nock_scope (interceptorObjs (serve h rid v) r))
           = shouldPersist (nock_scope (interceptorObjs v r))
       \<and> (\<forall>x. interceptors (requests (serve h rid v) x) = interceptors (requests v x))
       \<and> ((interceptionCounter (interceptorObjs (serve h rid v) r)
              = interceptionCounter (interceptorObjs v r)
            \<and> counter (interceptorObjs (serve h rid v) r) = counter (interceptorObjs v r)
            \<and> count_list (arrays (serve h rid v) (scopes e)) r
                = count_list (arrays v (scopes e)) r)
          \<or> (interceptionCounter (interceptorObjs (serve h rid v) r)
                = interceptionCounter (interceptorObjs v r) + 1
              \<and> r \<in> set (arrays v (scopes e))
              \<and> (if shouldPersist (nock_scope (interceptorObjs v r))
                  then counter (interceptorObjs (serve h rid v) r) = counter (interceptorObjs v r)
                     \<and> arrays (serve h rid v) (scopes e) = arrays v (scopes e)
                  else counter (interceptorObjs (serve h rid v) r)
                         = counter (interceptorObjs v r) - 1
                     \<and> arrays (serve h rid v) (scopes e)
                         = (if counter (interceptorObjs v r) - 1 \<le> 0
                            then remove1 r (arrays v (scopes e)) else arrays v (scopes e)))))"
proof -
  from serve_effect [OF quiet, of h rid]
  have q: "\<forall>t\<in>set (pending (serve h rid v)). \<not> anyReaction t"
    and "registry (serve h rid v) = registry v
         \<or> (\<exists>iref\<in>set (arrays v (scopes e)). registry (serve h rid v) = registry (consume iref v))"
    by (simp_all add: a)
  then consider (same) "registry (serve h rid v) = registry v"
    | (consumed) iref where "iref \<in> set (arrays v (scopes e))"
        "registry (serve h rid v) = registry (consume iref v)"
    by blast
  then show ?thesis
  proof cases
    case same
    with q show ?thesis unfolding registry_eq by simp
  next
    case consumed
    show ?thesis
    proof (cases "iref = r")
      case True
      with consumed q e show ?thesis
        unfolding registry_eq by (simp add: consume_facts)
    next
      case False
      with consumed q show ?thesis
        unfolding registry_eq by (simp add: consume_facts count_list_remove1)
    qed
  qed
qed

lemma serve_all_account:
  assumes e: "allInterceptors w (basePath (interceptorObjs w r)) = Some e"
    and once: "count_list (arrays w (scopes e)) r = 1"
    and quiet: "\<forall>t\<in>set (pending w). \<not> anyReaction t"
    and N: "1 \<le> N" "N = counter (interceptorObjs w r)"
    and reqs: "\<forall>rid\<in>set rids. interceptors (requests w rid) = scopes e"
  shows "(\<forall>t\<in>set (pending (foldl (\<lambda>v rid. serve h rid v) w rids)). \<not> anyReaction t)
       \<and> allInterceptors (foldl (\<lambda>v rid. serve h rid v) w rids) = allInterceptors w
       \<and> basePath (interceptorObjs (foldl (\<lambda>v rid. serve h rid v) w rids) r)
           = basePath (interceptorObjs w r)
       \<and> shouldPersist (nock_scope (interceptorObjs (foldl (\<lambda>v rid. serve h rid v) w rids) r))
           = shouldPersist (nock_scope (interceptorObjs w r))
       \<and> (\<forall>x. interceptors (requests (foldl (\<lambda>v rid. serve h rid v) w rids) x)
               = interceptors (requests w x))
       \<and> 0 \<le> interceptionCounter (interceptorObjs (foldl (\<lambda>v rid. serve h rid v) w rids) r)
               - interceptionCounter (interceptorObjs w r)
       \<and> (if shouldPersist (nock_scope (interceptorObjs w r))
           then counter (interceptorObjs (foldl (\<lambda>v rid. serve h rid v) w rids) r) = N
              \<and> count_list (arrays (foldl (\<lambda>v rid. serve h rid v) w rids) (scopes e)) r = 1
           else interceptionCounter (interceptorObjs (foldl (\<lambda>v rid. serve h rid v) w rids) r)
                  - interceptionCounter (interceptorObjs w r) \<le> N
              \<and> counter (interceptorObjs (foldl (\<lambda>v rid. serve h rid v) w rids) r)
                  = N - (interceptionCounter
                           (interceptorObjs (foldl (\<lambda>v rid. serve h rid v) w rids) r)
                         - interceptionCounter (interceptorObjs w r))
              \<and> (interceptionCounter (interceptorObjs (foldl (\<lambda>v rid. serve h rid v) w rids) r)
                   - interceptionCounter (interceptorObjs w r) < N \<longrightarrow>
                  count_list (arrays (foldl (\<lambda>v rid. serve h rid v) w rids) (scopes e)) r = 1)
              \<and> (interceptionCounter (interceptorObjs (foldl (\<lambda>v rid. serve h rid v) w rids) r)
                   - interceptionCounter (interceptorObjs w r) = N \<longrightarrow>
                  r \<notin> set (arrays (foldl (\<lambda>v rid. serve h rid v) w rids) (scopes e))))"
  using reqs
proof (induction rids rule: rev_induct)
  case Nil
  with e once quiet N show ?case by simp
next
  case (snoc rid rids)
  let ?v = "foldl (\<lambda>v rid. serve h rid v) w rids"
  let ?s = "interceptionCounter (interceptorObjs ?v r) - interceptionCounter (interceptorObjs w r)"
  let ?P = "shouldPersist (nock_scope (interceptorObjs w r))"
  from snoc.prems have "\<forall>rid\<in>set rids. interceptors (requests w rid) = scopes e" by simp
  from snoc.IH [OF this]
  have q: "\<forall>t\<in>set (pending ?v). \<not> anyReaction t"
    and al: "allInterceptors ?v = allInterceptors w"
    and bp: "basePath (interceptorObjs ?v r) = basePath (interceptorObjs w r)"
    and sp: "shouldPersist (nock_scope (interceptorObjs ?v r)) = ?P"
    and rq: "\<forall>x. interceptors (requests ?v x) = interceptors (requests w x)"
    and s0: "0 \<le> ?s"
    and acc: "if ?P then counter (interceptorObjs ?v r) = N \<and> count_list (arrays ?v (scopes e)) r = 1
              else ?s \<le> N \<and> counter (interceptorObjs ?v r) = N - ?s
                 \<and> (?s < N \<longrightarrow> count_list (arrays ?v (scopes e)) r = 1)
                 \<and> (?s = N \<longrightarrow> r \<notin> set (arrays ?v (scopes e)))"
    by blast+
  from e al bp have e': "allInterceptors ?v (basePath (interceptorObjs ?v r)) = Some e" by simp
  from snoc.prems rq have a': "interceptors (requests ?v rid) = scopes e" by simp
  let ?v' = "serve h rid ?v"
  have fold: "foldl (\<lambda>v rid. serve h rid v) w (rids @ [rid]) = ?v'" by simp
  from serve_account [OF q e' a', of h]
  have fr: "\<forall>t\<in>set (pending ?v'). \<not> anyReaction t"
    "allInterceptors ?v' = allInterceptors ?v"
    "basePath (interceptorObjs ?v' r) = basePath (interceptorObjs ?v r)"
    "shouldPersist (nock_scope (interceptorObjs ?v' r))
       = shouldPersist (nock_scope (interceptorObjs ?v r))"
    "\<forall>x. interceptors (requests ?v' x) = interceptors (requests ?v x)"
    and step: "(interceptionCounter (interceptorObjs ?v' r) = interceptionCounter (interceptorObjs ?v r)
          \<and> counter (interceptorObjs ?v' r) = counter (interceptorObjs ?v r)
          \<and> count_list (arrays ?v' (scopes e)) r = count_list (arrays ?v (scopes e)) r)
        \<or> (interceptionCounter (interceptorObjs ?v' r)
              = interceptionCounter (interceptorObjs ?v r) + 1
            \<and> r \<in> set (arrays ?v (scopes e))
            \<and> (if shouldPersist (nock_scope (interceptorObjs ?v r))
                then counter (interceptorObjs ?v' r) = counter (interceptorObjs ?v r)
                   \<and> arrays ?v' (scopes e) = arrays ?v (scopes e)
                else counter (interceptorObjs ?v' r) = counter (interceptorObjs ?v r) - 1
                   \<and> arrays ?v' (scopes e)
                       = (if counter (interceptorObjs ?v r) - 1 \<le> 0
                          then remove1 r (arrays ?v (scopes e)) else arrays ?v (scopes e))))"
    by blast+
  let ?s' = "interceptionCounter (interceptorObjs ?v' r) - interceptionCounter (interceptorObjs w r)"
  have main: "0 \<le> ?s'
      \<and> (if ?P then counter (interceptorObjs ?v' r) = N \<and> count_list (arrays ?v' (scopes e)) r = 1
          else ?s' \<le> N \<and> counter (interceptorObjs ?v' r) = N - ?s'
             \<and> (?s' < N \<longrightarrow> count_list (arrays ?v' (scopes e)) r = 1)
             \<and> (?s' = N \<longrightarrow> r \<notin> set (arrays ?v' (scopes e))))"
  proof (cases "interceptionCounter (interceptorObjs ?v' r) = interceptionCounter (interceptorObjs ?v r)
          \<and> counter (interceptorObjs ?v' r) = counter (interceptorObjs ?v r)
          \<and> count_list (arrays ?v' (scopes e)) r = count_list (arrays ?v (scopes e)) r")
    case True
    with s0 acc show ?thesis
      by (auto simp: count_list_0_iff)
  next
    case False
    with step have c: "interceptionCounter (interceptorObjs ?v' r)
          = interceptionCounter (interceptorObjs ?v r) + 1"
      "r \<in> set (arrays ?v (scopes e))"
      "if ?P then counter (interceptorObjs ?v' r) = counter (interceptorObjs ?v r)
             \<and> arrays ?v' (scopes e) = arrays ?v (scopes e)
       else counter (interceptorObjs ?v' r) = counter (interceptorObjs ?v r) - 1
          \<and> arrays ?v' (scopes e)
              = (if counter (interceptorObjs ?v r) - 1 \<le> 0
                 then remove1 r (arrays ?v (scopes e)) else arrays ?v (scopes e))"
      unfolding sp by blast+
    show ?thesis
    proof (cases ?P)
      case True
      with c acc s0 show ?thesis by simp
    next
      case False
      with acc c(2) have lt: "?s < N" and cnt: "count_list (arrays ?v (scopes e)) r = 1"
        and ctr: "counter (interceptorObjs ?v r) = N - ?s"
        by auto
      from False c(3) ctr have ctr': "counter (interceptorObjs ?v' r) = N - ?s - 1"
        and arr: "arrays ?v' (scopes e)
            = (if N - ?s - 1 \<le> 0 then remove1 r (arrays ?v (scopes e)) else arrays ?v (scopes e))"
        by simp_all
      have s': "?s' = ?s + 1" using c(1) by simp
      show ?thesis
      proof (cases "?s + 1 < N")
        case True
        with arr cnt ctr' s0 False lt show ?thesis unfolding s' by simp
      next
        case f: False
        with lt have eq: "?s + 1 = N" by simp
        then have "arrays ?v' (scopes e) = remove1 r (arrays ?v (scopes e))"
          using arr by simp
        then have "count_list (arrays ?v' (scopes e)) r = 0"
          using cnt c(2) by (simp add: count_list_remove1)
        then have "r \<notin> set (arrays ?v' (scopes e))"
          by (simp add: count_list_0_iff)
        with ctr' s0 False eq show ?thesis unfolding s' by simp
      qed
    qed
  qed
  from fr al bp sp rq main show ?case
    unfolding fold by simp
qed

lemma interceptionCounter_frames [simp]:
  "interceptionCounter (interceptorObjs (updRequest rid f w) x) = interceptionCounter (interceptorObjs w x)"
  "interceptionCounter (interceptorObjs (emit ev w) x) = interceptionCounter (interceptorObjs w x)"
  "interceptionCounter (interceptorObjs (schedule t w) x) = interceptionCounter (interceptorObjs w x)"
  "interceptionCounter (interceptorObjs (updInterceptor iref (\<lambda>i. i\<lparr>i_req := u\<rparr>) w) x)
     = interceptionCounter (interceptorObjs w x)"
  by (simp_all add: state_defs)

lemma transformBody_ok:
  assumes "b = JUndefined \<or> delayInMs i \<noteq> 0 \<or> js_typeof b \<noteq> ''string''
           \<or> (\<exists>x. Buffer_from h b JUndefined = Inr x)"
  shows "\<exists>rb w1. transformBody h rid i b w = Inr (rb, w1)"
  using assms by (auto simp: transformBody_def Let_def)

lemma continueWithResponseBody_counts:
  assumes "transformBody h rid (interceptorObjs w iref) b w = Inr (rb, w1)"
  shows "interceptionCounter (interceptorObjs (snd (continueWithResponseBody h rid iref b w)) iref)
           = interceptionCounter (interceptorObjs w iref) + 1"
proof -
  from registry_transformBody [OF assms] have "registry w1 = registry w" by simp
  then have 1: "interceptionCounter (interceptorObjs w1 iref)
      = interceptionCounter (interceptorObjs w iref)"
    unfolding registry_eq by simp
  let ?w2 = "consume iref (updRequest rid (\<lambda>r. r\<lparr>responseBody := rb\<rparr>) w1)"
  have 2: "interceptionCounter (interceptorObjs ?w2 iref)
      = interceptionCounter (interceptorObjs w iref) + 1"
    by (simp add: consume_facts 1)
  show ?thesis
  proof (cases "aborted (requests ?w2 rid)")
    case True
    with assms 2 show ?thesis by (simp add: continueWithResponseBody_def Let_def)
  next
    case False
    with assms 2 show ?thesis by (simp add: continueWithResponseBody_def Let_def)
  qed
qed

text \<open>The requests that are counted: when \<^verbatim>\<open>end\<close> finds \<open>r\<close> and \<open>r\<close> carries an
  error to raise, or a static reply that is not content-encoded for a request body that
  is text, the interception is counted, unless \<^verbatim>\<open>Buffer.from\<close> refuses the string
  body of a reply without delay.\<close>

lemma serve_counts:
  assumes quiet: "\<forall>t\<in>set (pending v). \<not> anyReaction t"
    and found: "array_find (interceptorMatches h rid (prepareMatch h rid v))
                  (arrays v (interceptors (requests v rid))) = Some r"
    and kind: "errorMessage (interceptorObjs v r) \<noteq> JUndefined
         \<or> (replyFunction (interceptorObjs v r) = None
            \<and> fullReplyFunction (interceptorObjs v r) = None
            \<and> \<not> isContentEncoded h (i_headers (interceptorObjs v r))
            \<and> \<not> isUtf8Representable h (concat (requestBodyBuffers (requests v rid)))
            \<and> (delayInMs (interceptorObjs v r) \<noteq> 0 \<or> js_typeof (body (interceptorObjs v r)) \<noteq> ''string''
               \<or> (\<exists>b. Buffer_from h (body (interceptorObjs v r)) JUndefined = Inr b)))"
  shows "interceptionCounter (interceptorObjs (serve h rid v) r)
           = interceptionCounter (interceptorObjs v r) + 1"
proof -
  let ?w3 = "prepareMatch h rid v"
  let ?w1 = "snd (end_fn h rid v)"
  let ?rb = "requestBodyOf h (requests ?w3 rid)"
  let ?bin = "isUtf8Representable h (concat (requestBodyBuffers (requests ?w3 rid)))"
  have e: "?w1 = snd (end_matched h rid r ?rb ?bin ?w3)"
    using found by (simp add: end_fn_def Let_def)
  define w4 where "w4 = emit (ScopeRequest r rid ?rb)
      (updRequest rid (\<lambda>q. q\<lparr>r_headers := reqHeaders q\<rparr>)
         (updInterceptor r (\<lambda>i. i\<lparr>i_req := Some rid\<rparr>)
            (setRequestHeaders h rid (interceptorObjs ?w3 r) ?w3)))"
  define w5 where "w5 = updRequest rid
      (\<lambda>q. q\<lparr>res_statusCode := statusCode (interceptorObjs w4 r),
              res_rawHeaders := rawHeaders (interceptorObjs w4 r)\<rparr>) w4"
  have i4: "interceptorObjs w4 r = (interceptorObjs v r)\<lparr>i_req := Some rid\<rparr>"
    by (simp add: w4_def state_defs)
  have c4: "interceptionCounter (interceptorObjs w4 r) = interceptionCounter (interceptorObjs v r)"
    by (simp add: i4)
  have c5: "interceptionCounter (interceptorObjs w5 r) = interceptionCounter (interceptorObjs v r)"
    "interceptorObjs w5 r = (interceptorObjs v r)\<lparr>i_req := Some rid\<rparr>"
    by (simp_all add: w5_def i4 updRequest_def)
  have b: "\<not> ?bin \<longleftrightarrow> \<not> isUtf8Representable h (concat (requestBodyBuffers (requests v rid)))"
    by simp
  have cnt: "interceptionCounter (interceptorObjs ?w1 r)
      = interceptionCounter (interceptorObjs v r) + 1"
  proof (cases "errorMessage (interceptorObjs v r) \<noteq> JUndefined")
    case True
    then have "?w1 = schedule
        (TErrorLater rid (getTotalDelay (interceptorObjs (consume r w4) r))
           (if isObject (errorMessage (interceptorObjs w4 r))
            then Thrown (errorMessage (interceptorObjs w4 r))
            else newError (errorMessage (interceptorObjs w4 r))))
        (consume r w4)"
      unfolding e end_matched_def Let_def w4_def [symmetric] by (simp add: i4)
    then show ?thesis by (simp add: consume_facts c4)
  next
    case False
    with kind have k: "errorMessage (interceptorObjs v r) = JUndefined"
      "replyFunction (interceptorObjs v r) = None"
      "fullReplyFunction (interceptorObjs v r) = None"
      "\<not> isContentEncoded h (i_headers (interceptorObjs v r))" "\<not> ?bin"
      "delayInMs (interceptorObjs v r) \<noteq> 0 \<or> js_typeof (body (interceptorObjs v r)) \<noteq> ''string''
       \<or> (\<exists>b. Buffer_from h (body (interceptorObjs v r)) JUndefined = Inr b)"
      using b by blast+
    then have w1: "?w1 = snd (continueWithResponseBody h rid r (body (interceptorObjs v r)) w5)"
      unfolding e end_matched_def Let_def w4_def [symmetric] w5_def [symmetric]
      by (simp add: i4)
    from k(6) have "body (interceptorObjs v r) = JUndefined
        \<or> delayInMs (interceptorObjs w5 r) \<noteq> 0
        \<or> js_typeof (body (interceptorObjs v r)) \<noteq> ''string''
        \<or> (\<exists>x. Buffer_from h (body (interceptorObjs v r)) JUndefined = Inr x)"
      by (simp add: c5(2))
    from transformBody_ok [OF this, of rid w5]
    obtain rb' w' where "transformBody h rid (interceptorObjs w5 r) (body (interceptorObjs v r)) w5
        = Inr (rb', w')" by blast
    from continueWithResponseBody_counts [OF this] show ?thesis
      unfolding w1 by (simp add: c5(1))
  qed
  from end_fn_effect [of v rid h] quiet
  have "pending ?w1 = pending v
      \<or> (\<exists>ts. pending ?w1 = pending v @ ts \<and> (\<forall>t\<in>set ts. \<not> anyReaction t))
      \<or> (\<exists>iref s. (pending ?w1 = pending v @ [TReply rid iref s]
              \<or> pending ?w1 = pending v @ [TFullReply rid iref s])
            \<and> registry ?w1 = registry v)"
    unfolding endEffect_def by blast
  moreover have "registry ?w1 \<noteq> registry v"
    using cnt unfolding registry_eq by (metis add_cancel_left_right zero_neq_one)
  ultimately have "\<forall>t\<in>set (pending ?w1). \<not> anyReaction t"
    using quiet by auto
  then have "array_find (isReaction rid) (pending ?w1) = None"
    by (simp add: array_find_None not_anyReaction)
  then have "serve h rid v = ?w1" by (simp add: serve_def Let_def)
  with cnt show ?thesis by simp
qed

text \<open>
  The use count, for requests that are handled one at a time. Let the interceptor \<open>r\<close>
  be registered once in the array of its base path, with the use count \<open>N \<ge> 1\<close>, and
  let requests that search this array be handled one at a time, in any number and
  whatever they are. Let \<open>s\<close> be the number of times that \<open>r\<close> has been consumed
  during them (\<^verbatim>\<open>interceptionCounter\<close>). For a scope that does not persist, \<open>s\<close>
  never exceeds \<open>N\<close>, the counter of \<open>r\<close> is \<open>N - s\<close>, \<open>r\<close> is still registered
  while \<open>s < N\<close>, and once \<open>s = N\<close> it is in the array no more, so that the search of
  a further request cannot find it. For a scope that persists the counter and the
  registration never change. At any moment a request for which \<^verbatim>\<open>end\<close> finds \<open>r\<close>
  consumes it when \<open>r\<close> carries an error to raise, or a static reply that is not
  content-encoded for a request body that is text (unless \<^verbatim>\<open>Buffer.from\<close> refuses
  the string body of a reply without delay).
\<close>

theorem use_count_is_exact:
  assumes "allInterceptors w (basePath (interceptorObjs w r)) = Some e"
    and "count_list (arrays w (scopes e)) r = 1"
    and "\<forall>t\<in>set (pending w). \<not> anyReaction t"
    and "1 \<le> N" and "N = counter (interceptorObjs w r)"
    and "\<forall>rid\<in>set rids. interceptors (requests w rid) = scopes e"
    and "w' = foldl (\<lambda>v rid. serve h rid v) w rids"
    and "s = interceptionCounter (interceptorObjs w' r) - interceptionCounter (interceptorObjs w r)"
  shows "0 \<le> s
       \<and> (if shouldPersist (nock_scope (interceptorObjs w r))
           then counter (interceptorObjs w' r) = N \<and> count_list (arrays w' (scopes e)) r = 1
           else s \<le> N \<and> counter (interceptorObjs w' r) = N - s
              \<and> (s < N \<longrightarrow> count_list (arrays w' (scopes e)) r = 1)
              \<and> (s = N \<longrightarrow>
                   r \<notin> set (arrays w' (scopes e))
                   \<and> (\<forall>rid. interceptors (requests w' rid) = scopes e \<longrightarrow>
                         array_find (interceptorMatches h rid (prepareMatch h rid w'))
                           (arrays (prepareMatch h rid w')
                              (interceptors (requests (prepareMatch h rid w') rid)))
                         \<noteq> Some r)))
       \<and> (\<forall>rid. array_find (interceptorMatches h rid (prepareMatch h rid w'))
                    (arrays w' (interceptors (requests w' rid))) = Some r
                 \<and> (errorMessage (interceptorObjs w' r) \<noteq> JUndefined
                    \<or> (replyFunction (interceptorObjs w' r) = None
                       \<and> fullReplyFunction (interceptorObjs w' r) = None
                       \<and> \<not> isContentEncoded h (i_headers (interceptorObjs w' r))
                       \<and> \<not> isUtf8Representable h (concat (requestBodyBuffers (requests w' rid)))
                       \<and> (delayInMs (interceptorObjs w' r) \<noteq> 0
                          \<or> js_typeof (body (interceptorObjs w' r)) \<noteq> ''string''
                          \<or> (\<exists>b. Buffer_from h (body (interceptorObjs w' r)) JUndefined = Inr b))))
               \<longrightarrow> interceptionCounter (interceptorObjs (serve h rid w') r)
                     = interceptionCounter (interceptorObjs w' r) + 1)"
proof -
  from serve_all_account [OF assms(1-6), of h]
  have quiet: "\<forall>t\<in>set (pending w'). \<not> anyReaction t"
    and s0: "0 \<le> s"
    and acc: "if shouldPersist (nock_scope (interceptorObjs w r))
        then counter (interceptorObjs w' r) = N \<and> count_list (arrays w' (scopes e)) r = 1
        else s \<le> N \<and> counter (interceptorObjs w' r) = N - s
           \<and> (s < N \<longrightarrow> count_list (arrays w' (scopes e)) r = 1)
           \<and> (s = N \<longrightarrow> r \<notin> set (arrays w' (scopes e)))"
    unfolding assms(7,8) by blast+
  have gone: "array_find (interceptorMatches h rid (prepareMatch h rid w'))
        (arrays (prepareMatch h rid w') (interceptors (requests (prepareMatch h rid w') rid)))
      \<noteq> Some r"
    if "r \<notin> set (arrays w' (scopes e))" "interceptors (requests w' rid) = scopes e" for rid
  proof
    assume "array_find (interceptorMatches h rid (prepareMatch h rid w'))
        (arrays (prepareMatch h rid w') (interceptors (requests (prepareMatch h rid w') rid)))
      = Some r"
    from array_find_Some [OF this] that show False by auto
  qed
  have counted: "interceptionCounter (interceptorObjs (serve h rid w') r)
        = interceptionCounter (interceptorObjs w' r) + 1"
    if "array_find (interceptorMatches h rid (prepareMatch h rid w'))
          (arrays w' (interceptors (requests w' rid))) = Some r
        \<and> (errorMessage (interceptorObjs w' r) \<noteq> JUndefined
           \<or> (replyFunction (interceptorObjs w' r) = None
              \<and> fullReplyFunction (interceptorObjs w' r) = None
              \<and> \<not> isContentEncoded h (i_headers (interceptorObjs w' r))
              \<and> \<not> isUtf8Representable h (concat (requestBodyBuffers (requests w' rid)))
              \<and> (delayInMs (interceptorObjs w' r) \<noteq> 0
                 \<or> js_typeof (body (interceptorObjs w' r)) \<noteq> ''string''
                 \<or> (\<exists>b. Buffer_from h (body (interceptorObjs w' r)) JUndefined = Inr b))))"
    for rid
    using serve_counts [OF quiet, of h rid r] that by blast
  from s0 acc gone counted show ?thesis
    by (cases "shouldPersist (nock_scope (interceptorObjs w r))") (simp_all only: if_True if_False, blast+)
qed

text \<open>The scenario with the use count 2: the requests 1 and 2, one after the other,
  both consume the interceptor, which is then registered no more.\<close>

theorem use_count_is_exact_witness:
  "interceptionCounter
     (interceptorObjs
        (foldl (\<lambda>v rid. serve exampleHelpers rid v)
           (exampleWorld (exampleInterceptor\<lparr>counter := 2\<rparr>)) [1, 2]) 0) = 2
   \<and> counter
       (interceptorObjs
          (foldl (\<lambda>v rid. serve exampleHelpers rid v)
             (exampleWorld (exampleInterceptor\<lparr>counter := 2\<rparr>)) [1, 2]) 0) = 0
   \<and> 0 \<notin> set (arrays
                 (foldl (\<lambda>v rid. serve exampleHelpers rid v)
                    (exampleWorld (exampleInterceptor\<lparr>counter := 2\<rparr>)) [1, 2]) 0)"
proof -
  let ?w = "exampleWorld (exampleInterceptor\<lparr>counter := 2\<rparr>)"
  let ?w' = "foldl (\<lambda>v rid. serve exampleHelpers rid v) ?w [1, 2]"
  let ?e = "\<lparr>key = ''http://x.test'', scopes = 0, e_allowUnmocked = False\<rparr>"
  have h1: "allInterceptors ?w (basePath (interceptorObjs ?w 0)) = Some ?e"
    by (simp add: scenario_defs state_defs Let_def)
  have h2: "count_list (arrays ?w (scopes ?e)) 0 = 1"
    by (simp add: scenario_defs state_defs Let_def)
  have h3: "\<forall>t\<in>set (pending ?w). \<not> anyReaction t"
    by (simp add: scenario_defs state_defs Let_def)
  have h4: "1 \<le> (2 :: int)" by simp
  have h5: "2 = counter (interceptorObjs ?w 0)"
    by (simp add: scenario_defs state_defs Let_def)
  have h6: "\<forall>rid\<in>set [1, 2]. interceptors (requests ?w rid) = scopes ?e"
    by (simp add: scenario_defs state_defs Let_def)
  have p: "\<not> shouldPersist (nock_scope (interceptorObjs ?w 0))"
    "interceptionCounter (interceptorObjs ?w 0) = 0"
    by (simp_all add: scenario_defs state_defs Let_def)
  have ic: "interceptionCounter (interceptorObjs ?w' 0) = 2"
    by (simp add: scenario_defs state_defs end_defs serve_def Let_def)
  from use_count_is_exact [OF h1 h2 h3 h4 h5 h6 refl refl, of exampleHelpers] p ic
  show ?thesis by simp
qed

text \<open>
  Claim C3 does not hold of the code. The interceptor of the scenario is used once and
  its reply cannot be made: a content-encoded reply with a body delay. \<^verbatim>\<open>req.end\<close>
  of request 1 finds it and schedules the error, and \<^verbatim>\<open>end\<close> returns there,
  before the interceptor is consumed. Once the error and the drain of request 1 are
  out, \<^verbatim>\<open>req.end\<close> of request 2 finds the same interceptor again instead of being
  unmatched, and the interceptor stays registered with its counter at 1. The
  interceptor that is used once and replies with an error of its own is consumed by
  request 1 before the error is raised, and request 2 is unmatched.
\<close>

theorem failed_reply_leaves_interceptor_registered:
  "trace (snd (req_end exampleHelpers 2 JUndefined JUndefined JUndefined
                 (turns exampleHelpers 2
                    (snd (req_end exampleHelpers 1 JUndefined JUndefined JUndefined
                            (exampleWorld (encodedInterceptor\<lparr>delayInMs := 100\<rparr>)))))))
     = [ScopeRequest 0 1 [], Emit 1 ''finish'', Emit 1 ''end'',
        EmitError 1
          (Error ''Response delay of the body is currently not supported with content-encoded responses.''),
        Emit 1 ''drain'',
        ScopeRequest 0 2 [], Emit 2 ''finish'', Emit 2 ''end'']
   \<and> pending (snd (req_end exampleHelpers 2 JUndefined JUndefined JUndefined
                     (turns exampleHelpers 2
                        (snd (req_end exampleHelpers 1 JUndefined JUndefined JUndefined
                                (exampleWorld (encodedInterceptor\<lparr>delayInMs := 100\<rparr>)))))))
     = [TError 2
          (Error ''Response delay of the body is currently not supported with content-encoded responses.''),
        TDrain 2]
   \<and> arrays (snd (req_end exampleHelpers 2 JUndefined JUndefined JUndefined
                    (turns exampleHelpers 2
                       (snd (req_end exampleHelpers 1 JUndefined JUndefined JUndefined
                               (exampleWorld (encodedInterceptor\<lparr>delayInMs := 100\<rparr>))))))) 0
     = [0]
   \<and> counter (interceptorObjs
                (snd (req_end exampleHelpers 2 JUndefined JUndefined JUndefined
                        (turns exampleHelpers 2
                           (snd (req_end exampleHelpers 1 JUndefined JUndefined JUndefined
                                   (exampleWorld (encodedInterceptor\<lparr>delayInMs := 100\<rparr>))))))) 0)
     = 1
   \<and> counter (interceptorObjs (exampleWorld (encodedInterceptor\<lparr>delayInMs := 100\<rparr>)) 0) = 1
   \<and> \<not> shouldPersist
          (nock_scope (interceptorObjs (exampleWorld (encodedInterceptor\<lparr>delayInMs := 100\<rparr>)) 0))
   \<and> trace (snd (req_end exampleHelpers 2 JUndefined JUndefined JUndefined
                   (turns exampleHelpers 3
                      (snd (req_end exampleHelpers 1 JUndefined JUndefined JUndefined
                              (exampleWorld (exampleInterceptor\<lparr>errorMessage := JStr ''boom''\<rparr>)))))))
     = [ScopeRequest 0 1 [], Emit 1 ''finish'', Emit 1 ''end'', Emit 1 ''drain'',
        EmitError 1 (Error ''boom''),
        NoMatch 2, Emit 2 ''finish'', Emit 2 ''end'']
   \<and> arrays (snd (req_end exampleHelpers 2 JUndefined JUndefined JUndefined
                    (turns exampleHelpers 3
                       (snd (req_end exampleHelpers 1 JUndefined JUndefined JUndefined
                               (exampleWorld (exampleInterceptor\<lparr>errorMessage := JStr ''boom''\<rparr>))))))) 0
     = []"
  by (simp add: scenario_defs state_defs end_defs request_defs Let_def eval_nat_numeral)

end
